theory Spec2Isabelle
  imports
    Main
    "HOL-Library.Char_ord"
    "HOL-Library.List_Lexorder"
    "HOL-Library.Product_Lexorder"
begin

section \<open>Strings\<close>

text \<open>
  A Python \<open>str\<close> is modelled by its UTF-8 encoding: a \<open>string\<close> whose characters are
  bytes.  Equality of strings, \<open>html.escape\<close>, \<open>str.split(":")\<close> and the lexicographic
  order of \<open>sorted\<close> are the same on the encoding as on the code points.
  \<open>str.strip()\<close> removes the code points for which \<open>str.isspace()\<close> holds; they are
  listed below by their encodings, one to three bytes long.
\<close>

definition ws1 :: "char \<Rightarrow> bool" where
  "ws1 c = (c \<in> set [CHR 0x09, CHR 0x0A, CHR 0x0B, CHR 0x0C, CHR 0x0D,
                       CHR 0x1C, CHR 0x1D, CHR 0x1E, CHR 0x1F, CHR 0x20])"

definition ws2 :: "char \<Rightarrow> char \<Rightarrow> bool" where
  "ws2 a b = (a = CHR 0xC2 \<and> (b = CHR 0x85 \<or> b = CHR 0xA0))"

definition ws3 :: "char \<Rightarrow> char \<Rightarrow> char \<Rightarrow> bool" where
  "ws3 a b c =
     ((a, b, c) \<in> set [(CHR 0xE1, CHR 0x9A, CHR 0x80),
                         (CHR 0xE2, CHR 0x80, CHR 0x80), (CHR 0xE2, CHR 0x80, CHR 0x81),
                         (CHR 0xE2, CHR 0x80, CHR 0x82), (CHR 0xE2, CHR 0x80, CHR 0x83),
                         (CHR 0xE2, CHR 0x80, CHR 0x84), (CHR 0xE2, CHR 0x80, CHR 0x85),
                         (CHR 0xE2, CHR 0x80, CHR 0x86), (CHR 0xE2, CHR 0x80, CHR 0x87),
                         (CHR 0xE2, CHR 0x80, CHR 0x88), (CHR 0xE2, CHR 0x80, CHR 0x89),
                         (CHR 0xE2, CHR 0x80, CHR 0x8A), (CHR 0xE2, CHR 0x80, CHR 0xA8),
                         (CHR 0xE2, CHR 0x80, CHR 0xA9), (CHR 0xE2, CHR 0x80, CHR 0xAF),
                         (CHR 0xE2, CHR 0x81, CHR 0x9F), (CHR 0xE3, CHR 0x80, CHR 0x80)])"

text \<open>\<open>str.lstrip()\<close>: drop whitespace code points from the front.\<close>

fun lstrip :: "string \<Rightarrow> string" where
  "lstrip [] = []"
| "lstrip [a] = (if ws1 a then [] else [a])"
| "lstrip [a, b] = (if ws1 a then lstrip [b] else if ws2 a b then [] else [a, b])"
| "lstrip (a # b # c # cs) =
     (if ws1 a then lstrip (b # c # cs)
      else if ws2 a b then lstrip (c # cs)
      else if ws3 a b c then lstrip cs
      else a # b # c # cs)"

text \<open>\<open>str.rstrip()\<close>: the same from the back; the bytes of a code point arrive reversed.\<close>

fun rstrip_rev :: "string \<Rightarrow> string" where
  "rstrip_rev [] = []"
| "rstrip_rev [a] = (if ws1 a then [] else [a])"
| "rstrip_rev [b, a] = (if ws1 b then rstrip_rev [a] else if ws2 a b then [] else [b, a])"
| "rstrip_rev (c # b # a # cs) =
     (if ws1 c then rstrip_rev (b # a # cs)
      else if ws2 b c then rstrip_rev (a # cs)
      else if ws3 a b c then rstrip_rev cs
      else c # b # a # cs)"

definition rstrip :: "string \<Rightarrow> string" where
  "rstrip s = rev (rstrip_rev (rev s))"

definition strip :: "string \<Rightarrow> string" where
  "strip s = rstrip (lstrip s)"

section \<open>Career watch: postings and the dedup store\<close>

text \<open>\<open>models.Posting\<close>, a frozen dataclass of four strings.\<close>

record posting =
  p_source :: string
  p_person_env :: string
  p_title :: string
  p_url :: string

text \<open>
  A row of the table \<open>postings(id, source, person, title, url, first_seen_utc)\<close>.
  The table is the list of its rows in insertion order; a database file that does not
  exist yet is the empty table (\<open>init_db\<close> creates the schema on every call).
\<close>

record row =
  r_id :: nat
  r_source :: string
  r_person :: string
  r_title :: string
  r_url :: string
  r_first_seen_utc :: string

type_synonym dedup_key = "string \<times> string \<times> string \<times> string"

definition row_key :: "row \<Rightarrow> dedup_key" where
  "row_key r = (r_source r, r_person r, r_title r, r_url r)"

text \<open>\<open>id INTEGER PRIMARY KEY\<close>: SQLite assigns one more than the largest id in use.\<close>

definition next_id :: "row list \<Rightarrow> nat" where
  "next_id tbl = Suc (fold max (map r_id tbl) 0)"

text \<open>
  \<open>INSERT OR IGNORE INTO postings (source, person, title, url, first_seen_utc)\<close> under
  the unique index \<open>ux_postings_dedupe\<close> on \<open>(source, person, title, url)\<close>: the
  statement is a no-op when a row with that key exists.  The result is
  \<open>cur.rowcount\<close> and the table after the statement.
\<close>

definition insert_or_ignore ::
    "row list \<Rightarrow> string \<Rightarrow> string \<Rightarrow> string \<Rightarrow> string \<Rightarrow> string \<Rightarrow> nat \<times> row list" where
  "insert_or_ignore tbl source person title url ts =
     (if (source, person, title, url) \<in> set (map row_key tbl) then (0, tbl)
      else (1, tbl @ [\<lparr>r_id = next_id tbl, r_source = source, r_person = person,
                       r_title = title, r_url = url, r_first_seen_utc = ts\<rparr>]))"

text \<open>
  The body of the transaction in \<open>filter_new\<close>: the loop \<open>for p in postings\<close>, with the
  table and \<open>new_items\<close> threaded through.
\<close>

fun filter_new_loop ::
    "string \<Rightarrow> string \<Rightarrow> posting list \<Rightarrow> row list \<Rightarrow> posting list \<Rightarrow> posting list \<times> row list" where
  "filter_new_loop person_env ts [] tbl new_items = (new_items, tbl)"
| "filter_new_loop person_env ts (p # ps) tbl new_items =
     (let source = strip (p_source p);
          title = strip (p_title p);
          url = strip (p_url p);
          person_norm = strip person_env;
          (rowcount, tbl') = insert_or_ignore tbl source person_norm title url ts
      in filter_new_loop person_env ts ps tbl'
           (if rowcount = 1
            then (if p_person_env p \<noteq> person_norm
                  then new_items @ [\<lparr>p_source = source, p_person_env = person_norm,
                                      p_title = title, p_url = url\<rparr>]
                  else new_items @ [p])
            else new_items))"

text \<open>
  What the call reads from its environment: the timestamp \<open>now_iso()\<close>, and whether the
  storage engine raises during the call, with the \<open>repr\<close> of the exception: in
  \<open>init_db\<close>, which runs before the \<open>try\<close> block, or inside it.  An exception inside the
  block leaves the \<open>with\<close> block before \<open>conn.commit()\<close>, so the transaction opened by
  \<open>BEGIN IMMEDIATE\<close> is rolled back and the table is what it was.
\<close>

datatype db_fault = No_fault | Init_db_raises string | Transaction_raises string

record db_env =
  now_iso :: string
  db_fault :: db_fault

text \<open>
  Exceptions.  \<open>Raised r\<close> is an exception raised by code outside the repository (a
  scraper, \<open>sqlite3\<close>), known by its \<open>repr\<close>; the others carry the fixed part of their
  message.
\<close>

datatype exn =
    ValueError string
  | ConfigError string
  | ZoneInfoNotFoundError string
  | OverflowError string
  | Raised string

text \<open>
  What a run does besides returning: the records it writes through \<open>logging_bridge\<close>
  (named by their \<open>op\<close>, with their fields in the order of the source) and the calls it
  makes on the scraper lookup and on a scraper.
\<close>

datatype event =
    Db_error string string
  | Skipped_kind string string nat "string list"
  | Scraper_run_error string string
  | Summary string bool "(string \<times> nat) list" "(string \<times> nat) list" "(string \<times> nat) list"
      "(string \<times> int) list" int
  | Ingest_only string nat "string list" "(string \<times> int) list" int
  | No_new string "(string \<times> int) list" int
  | Rendered string "(string \<times> nat) list" nat bool "(string \<times> int) list" int
  | Call_get_scraper string
  | Call_run string

text \<open>
  \<open>db.filter_new(sqlite_path, person_env, postings)\<close>.  The result is the outcome
  (\<open>Inl\<close> the exception re-raised to the caller, \<open>Inr\<close> the list returned), the table
  after the call and the error records logged (\<open>log_error\<close> is called in the \<open>except\<close>
  clause of the \<open>try\<close> block only).
\<close>

definition filter_new ::
    "db_env \<Rightarrow> row list \<Rightarrow> string \<Rightarrow> string \<Rightarrow> posting list
      \<Rightarrow> (exn + posting list) \<times> row list \<times> event list" where
  "filter_new env tbl sqlite_path person_env postings =
     (case db_fault env of
        Init_db_raises e \<Rightarrow> (Inl (Raised e), tbl, [])
      | Transaction_raises e \<Rightarrow> (Inl (Raised e), tbl, [Db_error sqlite_path e])
      | No_fault \<Rightarrow>
          (let (new_items, tbl') = filter_new_loop person_env (now_iso env) postings tbl []
           in (Inr new_items, tbl', [])))"

text \<open>\<open>db.count_rows\<close>: \<open>SELECT COUNT(*) FROM postings\<close>.\<close>

definition count_rows :: "row list \<Rightarrow> nat" where
  "count_rows tbl = length tbl"

subsection \<open>Notions used to state the store's properties\<close>

text \<open>The dedup key the loop computes for a posting: the four values it binds to the insert.\<close>

definition dedup_key :: "string \<Rightarrow> posting \<Rightarrow> dedup_key" where
  "dedup_key person_env p =
     (strip (p_source p), strip person_env, strip (p_title p), strip (p_url p))"

text \<open>The insert the loop attempts for a posting.\<close>

definition try_insert :: "string \<Rightarrow> string \<Rightarrow> row list \<Rightarrow> posting \<Rightarrow> nat \<times> row list" where
  "try_insert person_env ts tbl p =
     insert_or_ignore tbl (strip (p_source p)) (strip person_env) (strip (p_title p))
       (strip (p_url p)) ts"

text \<open>What the loop appends to \<open>new_items\<close> for a posting whose insert took place.\<close>

definition emitted :: "string \<Rightarrow> posting \<Rightarrow> posting" where
  "emitted person_env p =
     (if p_person_env p \<noteq> strip person_env
      then \<lparr>p_source = strip (p_source p), p_person_env = strip person_env,
            p_title = strip (p_title p), p_url = strip (p_url p)\<rparr>
      else p)"

text \<open>The values of \<open>cur.rowcount\<close> the loop reads, one per posting, in order.\<close>

fun rowcounts :: "string \<Rightarrow> string \<Rightarrow> posting list \<Rightarrow> row list \<Rightarrow> nat list" where
  "rowcounts person_env ts [] tbl = []"
| "rowcounts person_env ts (p # ps) tbl =
     (let (rowcount, tbl') = try_insert person_env ts tbl p
      in rowcount # rowcounts person_env ts ps tbl')"

text \<open>The postings whose \<open>rowcount\<close> was 1.\<close>

definition kept :: "posting list \<Rightarrow> nat list \<Rightarrow> posting list" where
  "kept ps rcs = map fst (filter (\<lambda>(p, rc). rc = 1) (zip ps rcs))"

section \<open>Career watch: rendering\<close>

text \<open>\<open>str(n)\<close> for a non-negative integer: its decimal digits.\<close>

definition digit_char :: "nat \<Rightarrow> char" where
  "digit_char d = ''0123456789'' ! d"

fun str_nat :: "nat \<Rightarrow> string" where
  "str_nat n = (if n < 10 then [digit_char n] else str_nat (n div 10) @ [digit_char (n mod 10)])"

declare str_nat.simps [simp del]

text \<open>\<open>utils.esc\<close>: \<open>html.escape(s, quote=True)\<close>.\<close>

definition esc_char :: "char \<Rightarrow> string" where
  "esc_char c =
     (if c = CHR ''&'' then ''&amp;''
      else if c = CHR ''<'' then ''&lt;''
      else if c = CHR ''>'' then ''&gt;''
      else if c = CHR 0x22 then ''&quot;''
      else if c = CHR 0x27 then ''&#x27;''
      else [c])"

definition esc :: "string \<Rightarrow> string" where
  "esc s = concat (map esc_char s)"

text \<open>\<open>sep.join(parts)\<close>.\<close>

fun join :: "string \<Rightarrow> string list \<Rightarrow> string" where
  "join sep [] = []"
| "join sep [x] = x"
| "join sep (x # y # ys) = x @ sep @ join sep (y # ys)"

definition row_html :: "posting \<Rightarrow> string" where
  "row_html p =
     (let title = (if p_title p \<noteq> [] then p_title p else ''(no title)'');
          url = p_url p;
          link_html = ''<a href='' @ [CHR 0x22] @ esc url @ [CHR 0x22] @ ''>'' @ esc url @ ''</a>''
      in ''<tr><td>'' @ esc title @ ''</td><td>'' @ link_html @ ''</td></tr>'')"

definition section_html :: "string \<times> posting list \<Rightarrow> string" where
  "section_html = (\<lambda>(source, items).
     (let table_html =
            ''<table border='' @ [CHR 0x27] @ ''1'' @ [CHR 0x27] @
            '' cellspacing='' @ [CHR 0x27] @ ''0'' @ [CHR 0x27] @
            '' cellpadding='' @ [CHR 0x27] @ ''6'' @ [CHR 0x27] @ ''>'' @
            ''<tr><th>Title</th><th>Link</th></tr>'' @ concat (map row_html items) @ ''</table>''
      in ''<h3>'' @ esc source @ ''</h3>'' @ [CHR 0x0A] @ table_html))"

text \<open>
  \<open>render.build_tables\<close>.  A \<open>dict\<close> is the list of its items in insertion order, with
  distinct keys; \<open>sorted(by_source.items())\<close> orders the items by key.
\<close>

definition build_tables :: "(string \<times> posting list) list \<Rightarrow> string" where
  "build_tables by_source = join [CHR 0x0A] (map section_html (sort_key fst by_source))"

text \<open>\<open>render.wrap_document(content_html, heading=..., intro=...)\<close>.\<close>

definition wrap_document :: "string \<Rightarrow> string \<Rightarrow> string \<Rightarrow> string" where
  "wrap_document content_html heading intro =
     join [CHR 0x0A]
       ([''<div>'']
        @ (if heading \<noteq> [] then [''<h2>'' @ esc heading @ ''</h2>''] else [])
        @ (if intro \<noteq> [] then [''<p>'' @ esc intro @ ''</p>''] else [])
        @ [content_html]
        @ [''</div>''])"

section \<open>Career watch: the engine\<close>

text \<open>\<open>config.ScraperConfig\<close>; \<open>params\<close> is a bag the engine only passes on.\<close>

record scraper_config =
  sc_kind :: string
  sc_source :: string
  sc_params :: "(string \<times> string) list"

text \<open>\<open>models.ScrapeResult\<close>.\<close>

record scrape_result =
  sr_source :: string
  sr_items :: "posting list"
  sr_errors :: "string list"

text \<open>
  \<open>config.Settings\<close>.  \<open>selected\<close> is the field \<open>_selected\<close>; \<open>groups_file\<close> is what
  opening and parsing the groups file gives when \<open>_selected_scrapers\<close> has to read it
  (\<open>Inl\<close> the message of the \<open>ConfigError\<close> raised).
\<close>

record settings =
  person_env :: string
  groups_path :: "string option"
  selected :: "scraper_config list"
  groups_file :: "string + scraper_config list"
  sqlite_path :: string
  max_threads :: int
  skip_network :: bool
  email_all_even_if_seen :: bool
  ingest_only_no_email :: bool

text \<open>\<open>d.setdefault(k, []).extend(vs)\<close> and \<open>d[k] = v\<close> on a dict.\<close>

fun setdefault_extend :: "'k \<Rightarrow> 'v list \<Rightarrow> ('k \<times> 'v list) list \<Rightarrow> ('k \<times> 'v list) list" where
  "setdefault_extend k vs [] = [(k, vs)]"
| "setdefault_extend k vs ((k', ws) # d) =
     (if k' = k then (k', ws @ vs) # d else (k', ws) # setdefault_extend k vs d)"

fun dict_set :: "'k \<Rightarrow> 'v \<Rightarrow> ('k \<times> 'v) list \<Rightarrow> ('k \<times> 'v) list" where
  "dict_set k v [] = [(k, v)]"
| "dict_set k v ((k', w) # d) = (if k' = k then (k', v) # d else (k', w) # dict_set k v d)"

text \<open>\<open>Settings._selected_scrapers\<close>.\<close>

definition selected_scrapers :: "settings \<Rightarrow> exn + scraper_config list" where
  "selected_scrapers s =
     (if selected s \<noteq> [] then Inr (selected s)
      else if (groups_path s = None \<or> groups_path s = Some []) \<and> strip (person_env s) = []
      then Inl (ConfigError ''Cannot derive groups file path without a resolved person name.'')
      else (case groups_file s of
              Inl msg \<Rightarrow> Inl (ConfigError msg)
            | Inr sel \<Rightarrow> if sel = [] then Inl (ConfigError ''No scrapers found in'') else Inr sel))"

text \<open>\<open>Settings.group_by_kind\<close>.\<close>

definition group_by_kind :: "settings \<Rightarrow> exn + (string \<times> scraper_config list) list" where
  "group_by_kind s =
     (case selected_scrapers s of
        Inl e \<Rightarrow> Inl e
      | Inr sel \<Rightarrow> Inr (fold (\<lambda>sc by_kind. setdefault_extend (sc_kind sc) [sc] by_kind) sel []))"

text \<open>
  What code outside the repository raises, known by its \<open>repr\<close>: an exception that is an
  instance of \<open>Exception\<close>, or one that is not (\<open>SystemExit\<close>, \<open>KeyboardInterrupt\<close>,
  \<open>GeneratorExit\<close> and the other classes derived from \<open>BaseException\<close> alone), which a
  clause \<open>except Exception\<close> does not catch.
\<close>

datatype raised = Of_exception string | Of_base_exception string

text \<open>
  A scraper: \<open>scraper_cls().run(person_env, specs, skip_network=...)\<close>, \<open>Inl\<close> what it
  raises.
\<close>

type_synonym scraper = "string \<Rightarrow> scraper_config list \<Rightarrow> bool \<Rightarrow> raised + scrape_result list"

text \<open>
  What a run reads from outside: the scraper lookup \<open>get_scraper_func\<close> (the override or
  the registry's \<open>get\<close>; \<open>Inl\<close> what it raises), the moment at which the future of each
  kind completes, the clock readings, and the store's environment.
\<close>

record env =
  get_scraper :: "string \<Rightarrow> raised + scraper"
  finished_at :: "string \<Rightarrow> nat"
  elapsed_us :: "string \<Rightarrow> int"
  total_us :: int
  db :: db_env

text \<open>
  \<open>as_completed(futures)\<close>: the futures, one per kind, in the order in which they complete.
\<close>

definition as_completed ::
    "env \<Rightarrow> (string \<times> scraper_config list) list \<Rightarrow> (string \<times> scraper_config list) list" where
  "as_completed env futures = sort_key (\<lambda>(kind, specs). finished_at env kind) futures"

text \<open>
  The inner function \<open>_run_kind\<close>: the outcome of the future (\<open>Inl\<close> what \<open>fut.result()\<close>
  raises: the worker stores whatever the task raised, and \<open>result\<close> raises it again) and
  what the task did.
\<close>

definition run_kind ::
    "env \<Rightarrow> settings \<Rightarrow> string \<Rightarrow> scraper_config list
      \<Rightarrow> (raised + string \<times> scrape_result list \<times> int \<times> bool) \<times> event list" where
  "run_kind env settings kind specs =
     (if skip_network settings
      then (Inr (kind, [], 0, True),
            [Skipped_kind (person_env settings) kind (length specs) (map sc_source specs)])
      else (case get_scraper env kind of
              Inl e \<Rightarrow> (Inl e, [Call_get_scraper kind])
            | Inr scraper \<Rightarrow>
                (case scraper (person_env settings) specs (skip_network settings) of
                   Inl e \<Rightarrow> (Inl e, [Call_get_scraper kind, Call_run kind])
                 | Inr results \<Rightarrow>
                     (Inr (kind, results, elapsed_us env kind, False),
                      [Call_get_scraper kind, Call_run kind]))))"

text \<open>
  The block \<open>with ThreadPoolExecutor(...) as pool\<close>: the loop
  \<open>for fut in as_completed(futures)\<close>, over the futures in completion order, with
  \<open>durations_us\<close>, \<open>all_results\<close> and the events so far threaded through.  The result is
  \<open>Inr\<close> of \<open>durations_us\<close> and \<open>all_results\<close> when the loop ends.  The handler is
  \<open>except Exception\<close>: what a future raises outside \<open>Exception\<close> leaves the loop and the
  block (\<open>Inl\<close> its \<open>repr\<close>) with no record logged; on the way out the pool waits for the
  futures still pending, whose tasks run but whose outcomes are not read.
\<close>

fun gather ::
    "env \<Rightarrow> settings \<Rightarrow> (string \<times> scraper_config list) list
      \<Rightarrow> (string \<times> int) list \<times> scrape_result list \<times> event list
      \<Rightarrow> (string + (string \<times> int) list \<times> scrape_result list) \<times> event list" where
  "gather env settings [] (durations_us, all_results, evs) = (Inr (durations_us, all_results), evs)"
| "gather env settings ((kind, specs) # futs) (durations_us, all_results, evs) =
     (case run_kind env settings kind specs of
        (Inr (k, results, dt_us, skipped), did) \<Rightarrow>
          gather env settings futs (dict_set k dt_us durations_us, all_results @ results, evs @ did)
      | (Inl (Of_exception e), did) \<Rightarrow>
          gather env settings futs
            (dict_set kind (case map_of durations_us kind of None \<Rightarrow> 0 | Some d \<Rightarrow> d) durations_us,
             all_results,
             evs @ did @ [Scraper_run_error kind e])
      | (Inl (Of_base_exception e), did) \<Rightarrow>
          (Inl e, evs @ did @ concat (map (\<lambda>(k, sp). snd (run_kind env settings k sp)) futs)))"

text \<open>The merge loop \<open>for res in all_results\<close>: \<open>pre_by_source\<close> and \<open>all_postings\<close>.\<close>

fun merge_results ::
    "scrape_result list \<Rightarrow> (string \<times> posting list) list \<times> posting list
      \<Rightarrow> (string \<times> posting list) list \<times> posting list" where
  "merge_results [] st = st"
| "merge_results (res # rest) (pre_by_source, all_postings) =
     merge_results rest
       (setdefault_extend (sr_source res) (sr_items res) pre_by_source, all_postings @ sr_items res)"

text \<open>The loop \<open>for p in new_postings\<close> that builds \<open>new_by_source\<close>.\<close>

definition group_new :: "posting list \<Rightarrow> (string \<times> posting list) list" where
  "group_new new_postings = fold (\<lambda>p d. setdefault_extend (p_source p) [p] d) new_postings []"

text \<open>\<open>_summary_message(by_source, person_env, label=...)\<close>.\<close>

definition summary_message :: "(string \<times> posting list) list \<Rightarrow> string \<Rightarrow> string \<Rightarrow> string" where
  "summary_message by_source person label =
     (let total = sum_list (map (\<lambda>(src, v). length v) by_source);
          num_sources = length (filter (\<lambda>(src, items). items \<noteq> []) by_source)
      in str_nat total @ '' '' @ label @ '' across '' @ str_nat num_sources @
         '' sources for '' @ person)"

text \<open>The dash of the subject and the heading, U+2014, in UTF-8.\<close>

definition em_dash :: string where
  "em_dash = [CHR 0xE2, CHR 0x80, CHR 0x94]"

text \<open>\<open>meta_dict\<close>, by its keys.\<close>

record meta =
  m_message :: string
  m_person :: string
  m_new_total :: nat
  m_by_source :: "(string \<times> nat) list"
  m_subject :: string
  m_durations_us :: "(string \<times> int) list"
  m_email_all_even_if_seen :: bool
  m_ingest_only_no_email :: bool

text \<open>
  \<open>run_once\<close> from the summary log to its return: given what the fan-out and the dedup
  call produced, the value returned (\<open>None\<close> or \<open>(html, meta_dict)\<close>) and the records
  logged.
\<close>

definition conclude ::
    "env \<Rightarrow> settings \<Rightarrow> (string \<times> nat) list \<Rightarrow> (string \<times> int) list
      \<Rightarrow> (string \<times> posting list) list \<Rightarrow> (string \<times> posting list) list
      \<Rightarrow> (string \<times> meta) option \<times> event list" where
  "conclude env settings planned_specs_by_kind durations_us pre_by_source new_by_source =
     (let person = person_env settings;
          found_by_source_counts = map (\<lambda>(src, items). (src, length items)) pre_by_source;
          new_by_source_counts = map (\<lambda>(src, items). (src, length items)) new_by_source;
          summary = Summary person (skip_network settings) planned_specs_by_kind
                      found_by_source_counts new_by_source_counts durations_us (total_us env)
      in
      if ingest_only_no_email settings
      then (None,
            [summary,
             Ingest_only person (sum_list (map snd new_by_source_counts))
               (sort (map fst new_by_source_counts)) durations_us (total_us env)])
      else if \<not> email_all_even_if_seen settings \<and> new_by_source = []
      then (None, [summary, No_new person durations_us (total_us env)])
      else
        (let to_render = (if email_all_even_if_seen settings then pre_by_source else new_by_source);
             msg = (if email_all_even_if_seen settings
                    then summary_message pre_by_source person ''all postings''
                    else summary_message new_by_source person ''new postings'');
             new_total = sum_list (map snd new_by_source_counts);
             sources_with_jobs = map fst (filter (\<lambda>(src, items). items \<noteq> []) new_by_source);
             subject =
               (if length sources_with_jobs = 1
                then ''Career Watch '' @ em_dash @ '' '' @ str_nat new_total @ '' new at '' @
                     hd sources_with_jobs
                else ''Career Watch '' @ em_dash @ '' '' @ str_nat new_total @ '' new jobs ('' @
                     str_nat (length sources_with_jobs) @ '' companies)'');
             tables_html = build_tables to_render;
             heading = ''Career Watch '' @ em_dash @ '' '' @ person;
             html = wrap_document tables_html heading msg;
             by_source_counts = map (\<lambda>(src, items). (src, length items)) to_render;
             meta_dict = \<lparr>m_message = msg, m_person = person, m_new_total = new_total,
                          m_by_source = by_source_counts, m_subject = subject,
                          m_durations_us = dict_set ''_total_us'' (total_us env) durations_us,
                          m_email_all_even_if_seen = email_all_even_if_seen settings,
                          m_ingest_only_no_email = ingest_only_no_email settings\<rparr>
         in (Some (html, meta_dict),
             [summary,
              Rendered person by_source_counts new_total (email_all_even_if_seen settings)
                durations_us (total_us env)])))"

text \<open>
  \<open>engine.run_once(settings, get_scraper)\<close> on a store holding \<open>tbl\<close>.  The result is the
  outcome (\<open>Inl\<close> the exception the call raises, \<open>Inr\<close> the value returned), the table
  after the call and what the call did, in order.  \<open>ThreadPoolExecutor\<close> raises
  \<open>ValueError\<close> for \<open>max_workers \<le> 0\<close>.  What leaves the pool's block leaves \<open>run_once\<close>:
  nothing around the block catches it.
\<close>

definition run_once ::
    "env \<Rightarrow> settings \<Rightarrow> row list \<Rightarrow> (exn + (string \<times> meta) option) \<times> row list \<times> event list" where
  "run_once env settings tbl =
     (case group_by_kind settings of
        Inl e \<Rightarrow> (Inl e, tbl, [])
      | Inr by_kind \<Rightarrow>
          (let planned_specs_by_kind = map (\<lambda>(k, v). (k, length v)) by_kind in
           if min (if by_kind = [] then 1 else int (length by_kind)) (max_threads settings) \<le> 0
           then (Inl (ValueError ''max_workers must be greater than 0''), tbl, [])
           else
             (case gather env settings (as_completed env by_kind) ([], [], []) of
                (Inl e, did) \<Rightarrow> (Inl (Raised e), tbl, did)
              | (Inr (durations_us, all_results), did) \<Rightarrow>
                  (let (pre_by_source, all_postings) = merge_results all_results ([], [])
                   in (case filter_new (db env) tbl (sqlite_path settings) (person_env settings)
                              all_postings of
                         (Inl e, tbl', logged) \<Rightarrow> (Inl e, tbl', did @ logged)
                       | (Inr new_postings, tbl', logged) \<Rightarrow>
                           (let (result, records) =
                                  conclude env settings planned_specs_by_kind durations_us
                                    pre_by_source (group_new new_postings)
                            in (Inr result, tbl', did @ logged @ records)))))))"

subsection \<open>Notions used to state the engine's properties\<close>

text \<open>The grouping a run works on (\<open>by_kind\<close>), when \<open>group_by_kind\<close> returns.\<close>

definition by_kind_of :: "settings \<Rightarrow> (string \<times> scraper_config list) list" where
  "by_kind_of s = (case group_by_kind s of Inl e \<Rightarrow> [] | Inr by_kind \<Rightarrow> by_kind)"

text \<open>
  Everything the fan-out of a run has collected when the merge begins: \<open>durations_us\<close>,
  \<open>all_results\<close>, the events.  A run that leaves the pool's block by an exception never
  reaches the merge: it has collected no result.
\<close>

definition fan_out ::
    "env \<Rightarrow> settings \<Rightarrow> (string \<times> int) list \<times> scrape_result list \<times> event list" where
  "fan_out env s =
     (case gather env s (as_completed env (by_kind_of s)) ([], [], []) of
        (Inl e, evs) \<Rightarrow> ([], [], evs)
      | (Inr (durations_us, all_results), evs) \<Rightarrow> (durations_us, all_results, evs))"

text \<open>
  The postings a run found, in the order of \<open>all_postings\<close>, and \<open>pre_by_source\<close>: what the
  merge loop builds from \<open>all_results\<close>.  In a run that leaves the pool's block by an
  exception the two are never built; they are empty here.
\<close>

definition found_postings :: "env \<Rightarrow> settings \<Rightarrow> posting list" where
  "found_postings env s = snd (merge_results (fst (snd (fan_out env s))) ([], []))"

definition found_by_source :: "env \<Rightarrow> settings \<Rightarrow> (string \<times> posting list) list" where
  "found_by_source env s = fst (merge_results (fst (snd (fan_out env s))) ([], []))"

text \<open>What the dedup call of a run returns (\<open>new_postings\<close>) and the table it leaves.\<close>

definition new_postings :: "env \<Rightarrow> settings \<Rightarrow> row list \<Rightarrow> posting list" where
  "new_postings env s tbl =
     (case fst (filter_new (db env) tbl (sqlite_path s) (person_env s) (found_postings env s)) of
        Inl e \<Rightarrow> []
      | Inr new_items \<Rightarrow> new_items)"

definition table_after :: "env \<Rightarrow> settings \<Rightarrow> row list \<Rightarrow> row list" where
  "table_after env s tbl =
     fst (snd (filter_new (db env) tbl (sqlite_path s) (person_env s) (found_postings env s)))"

text \<open>
  What one kind adds to \<open>all_results\<close>, and the events of its future, in a run whose loop
  ends.
\<close>

definition kind_results :: "env \<Rightarrow> settings \<Rightarrow> string \<times> scraper_config list \<Rightarrow> scrape_result list" where
  "kind_results env s = (\<lambda>(kind, specs).
     (case fst (run_kind env s kind specs) of
        Inl e \<Rightarrow> []
      | Inr (k, results, dt_us, skipped) \<Rightarrow> results))"

definition kind_events :: "env \<Rightarrow> settings \<Rightarrow> string \<times> scraper_config list \<Rightarrow> event list" where
  "kind_events env s = (\<lambda>(kind, specs).
     snd (run_kind env s kind specs) @
     (case fst (run_kind env s kind specs) of
        Inl (Of_exception e) \<Rightarrow> [Scraper_run_error kind e]
      | Inl (Of_base_exception e) \<Rightarrow> []
      | Inr r \<Rightarrow> []))"

text \<open>
  What the future of a kind raises outside \<open>Exception\<close>, if it does; and the first such
  exception in completion order, which is the one that leaves the loop.
\<close>

definition escapes :: "env \<Rightarrow> settings \<Rightarrow> string \<times> scraper_config list \<Rightarrow> string option" where
  "escapes env s = (\<lambda>(kind, specs).
     (case fst (run_kind env s kind specs) of
        Inl (Of_base_exception e) \<Rightarrow> Some e
      | _ \<Rightarrow> None))"

definition interrupted :: "env \<Rightarrow> settings \<Rightarrow> string option" where
  "interrupted env s =
     (case List.map_filter (escapes env s) (as_completed env (by_kind_of s)) of
        [] \<Rightarrow> None
      | e # es \<Rightarrow> Some e)"


text \<open>An event that is a call on the scraper lookup or on a scraper.\<close>

fun is_scraper_call :: "event \<Rightarrow> bool" where
  "is_scraper_call (Call_get_scraper k) = True"
| "is_scraper_call (Call_run k) = True"
| "is_scraper_call _ = False"

text \<open>
  The run is not cut short before the fan-out: \<open>group_by_kind\<close> returns and the pool gets
  a positive number of workers.  \<open>_validate_settings\<close> checks both for the settings that
  \<open>from_env_and_kwargs\<close> builds.
\<close>

definition pool_starts :: "settings \<Rightarrow> bool" where
  "pool_starts s = (case selected_scrapers s of Inl e \<Rightarrow> False | Inr sel \<Rightarrow> 0 < max_threads s)"

section \<open>Scheduler: the trigger compiler\<close>

subsection \<open>Configuration values\<close>

text \<open>
  A scalar of the loaded configuration: \<open>None\<close>, a bool, an integer or a string.
  \<open>py_str\<close> is \<open>str(v)\<close> and \<open>truthy\<close> is the truth value \<open>not\<close> tests.
\<close>

datatype scalar = SNone | SBool bool | SInt int | SStr string

definition py_str :: "scalar \<Rightarrow> string" where
  "py_str v =
     (case v of
        SNone \<Rightarrow> ''None''
      | SBool b \<Rightarrow> (if b then ''True'' else ''False'')
      | SInt i \<Rightarrow> (if i < 0 then ''-'' @ str_nat (nat (- i)) else str_nat (nat i))
      | SStr s \<Rightarrow> s)"

definition truthy :: "scalar \<Rightarrow> bool" where
  "truthy v =
     (case v of SNone \<Rightarrow> False | SBool b \<Rightarrow> b | SInt i \<Rightarrow> i \<noteq> 0 | SStr s \<Rightarrow> s \<noteq> [])"

text \<open>\<open>d.get(k)\<close> on a key whose value is a scalar: \<open>None\<close> when the key is absent.\<close>

definition get_scalar :: "scalar option \<Rightarrow> scalar" where
  "get_scalar v = (case v of None \<Rightarrow> SNone | Some x \<Rightarrow> x)"

subsection \<open>\<open>str.split\<close> and \<open>int\<close>\<close>

text \<open>\<open>s.split(sep)\<close> for a separator of one character.\<close>

fun split_on :: "char \<Rightarrow> string \<Rightarrow> string list" where
  "split_on sep [] = [[]]"
| "split_on sep (x # xs) =
     (if x = sep then [] # split_on sep xs
      else (case split_on sep xs of [] \<Rightarrow> [[x]] | p # ps \<Rightarrow> (x # p) # ps))"

text \<open>
  \<open>int(s)\<close> on a string, \<open>None\<close> for \<open>ValueError\<close>.  \<open>int\<close> reads the string code point by
  code point: it drops the whitespace around it, then takes an optional sign, then decimal
  digits, where single underscores may stand between two digits.

  The whitespace \<open>int\<close> drops is not that of \<open>str.strip\<close>: of the ASCII characters only
  the six for which C's \<open>isspace\<close> holds (the separators U+001C to U+001F are kept, and
  make the string unreadable), and every whitespace code point beyond ASCII.
\<close>

definition int_space :: "char \<Rightarrow> bool" where
  "int_space c = (c \<in> set [CHR 0x09, CHR 0x0A, CHR 0x0B, CHR 0x0C, CHR 0x0D, CHR 0x20])"

fun int_lstrip :: "string \<Rightarrow> string" where
  "int_lstrip [] = []"
| "int_lstrip [a] = (if int_space a then [] else [a])"
| "int_lstrip [a, b] = (if int_space a then int_lstrip [b] else if ws2 a b then [] else [a, b])"
| "int_lstrip (a # b # c # cs) =
     (if int_space a then int_lstrip (b # c # cs)
      else if ws2 a b then int_lstrip (c # cs)
      else if ws3 a b c then int_lstrip cs
      else a # b # c # cs)"

fun int_rstrip_rev :: "string \<Rightarrow> string" where
  "int_rstrip_rev [] = []"
| "int_rstrip_rev [a] = (if int_space a then [] else [a])"
| "int_rstrip_rev [b, a] =
     (if int_space b then int_rstrip_rev [a] else if ws2 a b then [] else [b, a])"
| "int_rstrip_rev (c # b # a # cs) =
     (if int_space c then int_rstrip_rev (b # a # cs)
      else if ws2 b c then int_rstrip_rev (a # cs)
      else if ws3 a b c then int_rstrip_rev cs
      else c # b # a # cs)"

definition int_strip :: "string \<Rightarrow> string" where
  "int_strip s = rev (int_rstrip_rev (rev (int_lstrip s)))"

text \<open>
  The code points of a string, each by its UTF-8 bytes: the first byte tells how many
  bytes the code point takes.
\<close>

definition utf8_len :: "char \<Rightarrow> nat" where
  "utf8_len c =
     (if (of_char c :: nat) < 0xC0 then 1
      else if (of_char c :: nat) < 0xE0 then 2
      else if (of_char c :: nat) < 0xF0 then 3
      else 4)"

fun code_points :: "string \<Rightarrow> string list" where
  "code_points [] = []"
| "code_points (c # cs) = (c # take (utf8_len c - 1) cs) # code_points (drop (utf8_len c - 1) cs)"

text \<open>
  A digit is any code point of the Unicode category Nd.  The ASCII digits are read here;
  for a code point beyond ASCII the interpreter's Unicode database is asked:
  \<open>unicode_decimal cp\<close> is the digit value of the code point with the bytes \<open>cp\<close>, \<open>None\<close>
  when it is no decimal digit.  The interpreter's limit on the number of digits is left
  out.
\<close>

definition is_digit :: "char \<Rightarrow> bool" where
  "is_digit c = (c \<in> set ''0123456789'')"

definition digit_val :: "char \<Rightarrow> nat" where
  "digit_val c = of_char c - 48"

definition digit_of :: "(string \<Rightarrow> nat option) \<Rightarrow> string \<Rightarrow> nat option" where
  "digit_of unicode_decimal cp =
     (case cp of
        [c] \<Rightarrow>
          if (of_char c :: nat) < 0x80 then (if is_digit c then Some (digit_val c) else None)
          else unicode_decimal cp
      | _ \<Rightarrow> unicode_decimal cp)"

fun py_digits :: "(string \<Rightarrow> nat option) \<Rightarrow> string list \<Rightarrow> nat \<Rightarrow> nat option" where
  "py_digits ud [] acc = Some acc"
| "py_digits ud [c] acc = map_option (\<lambda>v. acc * 10 + v) (digit_of ud c)"
| "py_digits ud (c # d # cs) acc =
     (case digit_of ud c of
        Some v \<Rightarrow> py_digits ud (d # cs) (acc * 10 + v)
      | None \<Rightarrow>
          if c = ''_''
          then (case digit_of ud d of
                  Some w \<Rightarrow> py_digits ud cs (acc * 10 + w)
                | None \<Rightarrow> None)
          else None)"

definition py_nat :: "(string \<Rightarrow> nat option) \<Rightarrow> string list \<Rightarrow> nat option" where
  "py_nat ud cps =
     (case cps of
        [] \<Rightarrow> None
      | c # cs \<Rightarrow> (case digit_of ud c of Some v \<Rightarrow> py_digits ud cs v | None \<Rightarrow> None))"

definition py_int :: "(string \<Rightarrow> nat option) \<Rightarrow> string \<Rightarrow> int option" where
  "py_int ud s =
     (case int_strip s of
        [] \<Rightarrow> None
      | c # cs \<Rightarrow>
          if c = CHR ''-'' then map_option (\<lambda>n. - int n) (py_nat ud (code_points cs))
          else if c = CHR ''+'' then map_option int (py_nat ud (code_points cs))
          else map_option int (py_nat ud (code_points (c # cs))))"

subsection \<open>Time zones and triggers\<close>

text \<open>
  A time zone object: \<open>ZoneInfo(key)\<close>, or a \<open>tzinfo\<close> object handed in by the caller (the
  scheduler passes the \<open>pytz\<close> zone it resolved), known by its name.
\<close>

datatype tzinfo = ZoneInfo string | Tz_object string

text \<open>The argument of the inner function \<open>_tz\<close>: a configuration scalar or a \<open>tzinfo\<close>.\<close>

datatype tz_arg = Tz_scalar scalar | Tz_info tzinfo

text \<open>The arguments \<open>_build_trigger\<close> gives to \<open>CronTrigger\<close> for one time of the day.\<close>

record cron_fields =
  cf_second :: int
  cf_minute :: int
  cf_hour :: int
  cf_day_of_week :: scalar
  cf_timezone :: "tzinfo option"

text \<open>
  A trigger object: the \<open>CronTrigger\<close> of one time of the day, an \<open>OrTrigger\<close>, or a trigger
  built by the \<open>interval\<close>, \<open>cron\<close> or \<open>date\<close> branch.
\<close>

datatype 'x trigger = CronTrigger cron_fields | OrTrigger "'x trigger list" | Lib_trigger 'x

text \<open>
  What \<open>_build_trigger\<close> uses from outside the repository.
  \<^item> \<open>zoneinfo key\<close> is \<open>ZoneInfo(key)\<close>: the zone, or the exception raised for a key the
    time zone database does not know.
  \<^item> \<open>cron_rejects f\<close> is \<open>Some\<close> of the \<open>repr\<close> of the exception
    \<open>CronTrigger(second=..., minute=..., hour=..., day_of_week=..., timezone=...)\<close> raises
    (an unreadable \<open>day_of_week\<close> expression), \<open>None\<close> when it returns.
  \<^item> \<open>other_trigger kind spec default_tz\<close> is the \<open>interval\<close>, \<open>cron\<close> or \<open>date\<close> branch of
    \<open>_build_trigger\<close> on the value \<open>spec\<close> of that key.  These branches validate their own
    fields and call \<open>IntervalTrigger\<close>, \<open>CronTrigger\<close>, \<open>CronTrigger.from_crontab\<close> and
    \<open>DateTrigger\<close>; they are taken as given here.
  \<^item> \<open>unicode_decimal\<close> is the interpreter's table of the decimal digits beyond ASCII,
    which \<open>int\<close> consults.
\<close>

record ('v, 'x) lib =
  zoneinfo :: "string \<Rightarrow> exn + tzinfo"
  cron_rejects :: "cron_fields \<Rightarrow> string option"
  other_trigger :: "string \<Rightarrow> 'v \<Rightarrow> tzinfo option \<Rightarrow> exn + 'x"
  unicode_decimal :: "string \<Rightarrow> nat option"

text \<open>The inner function \<open>_tz\<close>.\<close>

definition tz_of :: "('v, 'x) lib \<Rightarrow> tz_arg \<Rightarrow> exn + tzinfo option" where
  "tz_of lib z =
     (case z of
        Tz_info t \<Rightarrow> Inr (Some t)
      | Tz_scalar v \<Rightarrow>
          if \<not> truthy v then Inr None
          else (case zoneinfo lib (py_str v) of Inl e \<Rightarrow> Inl e | Inr t \<Rightarrow> Inr (Some t)))"

subsection \<open>The trigger spec\<close>

text \<open>
  A key of a spec dict: absent, present with the value \<open>None\<close>, or present with a value.
\<close>

datatype 'a slot = Absent | Null | Given 'a

fun given :: "'a slot \<Rightarrow> bool" where
  "given (Given v) = True"
| "given _ = False"

text \<open>
  The value of \<open>daily_time["time"]\<close>: a scalar or a list of scalars.  The dict under
  \<open>daily_time\<close>: its three known keys (\<open>None\<close> for an absent key) and the names of its
  other keys.
\<close>

datatype time_value = Time_scalar scalar | Time_list "scalar list"

record daily_time_def =
  dt_time :: "time_value option"
  dt_day_of_week :: "scalar option"
  dt_timezone :: "scalar option"
  dt_other_keys :: "string list"

datatype dt_value = Dt_dict daily_time_def | Dt_not_dict

text \<open>
  The argument \<open>trig_def\<close>: a dict, read at its four trigger keys, or something that is not
  a dict.  The values under \<open>interval\<close>, \<open>cron\<close> and \<open>date\<close> are of a type \<open>'v\<close> left open.
\<close>

record 'v trig_dict =
  td_interval :: "'v slot"
  td_cron :: "'v slot"
  td_date :: "'v slot"
  td_daily_time :: "dt_value slot"

datatype 'v trig_def = Trig_dict "'v trig_dict" | Trig_not_dict

text \<open>\<open>k in trig_def and trig_def[k] is not None\<close>.\<close>

definition has_value :: "'v trig_dict \<Rightarrow> string \<Rightarrow> bool" where
  "has_value d k =
     (if k = ''interval'' then given (td_interval d)
      else if k = ''cron'' then given (td_cron d)
      else if k = ''date'' then given (td_date d)
      else if k = ''daily_time'' then given (td_daily_time d)
      else False)"

subsection \<open>The \<open>daily_time\<close> branch\<close>

text \<open>Applying a function that may raise to the elements of a list, in order.\<close>

fun map_result :: "('a \<Rightarrow> exn + 'b) \<Rightarrow> 'a list \<Rightarrow> exn + 'b list" where
  "map_result f [] = Inr []"
| "map_result f (x # xs) =
     (case f x of
        Inl e \<Rightarrow> Inl e
      | Inr y \<Rightarrow> (case map_result f xs of Inl e \<Rightarrow> Inl e | Inr ys \<Rightarrow> Inr (y # ys)))"

text \<open>
  \<open>time(hh, mm, ss)\<close> first converts its arguments to C \<open>int\<close>s, in order, and raises
  \<open>OverflowError\<close> for one that does not fit; \<open>c_int_overflow\<close> is the message for such
  an argument.
\<close>

definition c_int_overflow :: "int \<Rightarrow> string option" where
  "c_int_overflow i =
     (if i < - (2 ^ 63) \<or> 2 ^ 63 \<le> i then Some ''Python int too large to convert to C long''
      else if 2 ^ 31 \<le> i then Some ''signed integer is greater than maximum''
      else if i < - (2 ^ 31) then Some ''signed integer is less than minimum''
      else None)"

text \<open>
  The inner function \<open>_parse_time\<close>.  Only the \<open>ValueError\<close> of \<open>int\<close> is caught and
  replaced.  \<open>time(hh, mm, ss)\<close> raises \<open>OverflowError\<close> as above, and then \<open>ValueError\<close>
  for a value out of range, the hour first.
\<close>

definition parse_time :: "(string \<Rightarrow> nat option) \<Rightarrow> string \<Rightarrow> exn + int \<times> int \<times> int" where
  "parse_time ud s =
     (let parts = split_on (CHR '':'') s in
      if length parts \<noteq> 2 \<and> length parts \<noteq> 3
      then Inl (ValueError ''daily_time.time must be HH:MM or HH:MM:SS'')
      else
        (case (py_int ud (parts ! 0), py_int ud (parts ! 1),
               if length parts = 3 then py_int ud (parts ! 2) else Some 0) of
           (Some hh, Some mm, Some ss) \<Rightarrow>
             (case List.map_filter c_int_overflow [hh, mm, ss] of
                msg # msgs \<Rightarrow> Inl (OverflowError msg)
              | [] \<Rightarrow>
                  if \<not> (0 \<le> hh \<and> hh \<le> 23) then Inl (ValueError ''hour must be in 0..23'')
                  else if \<not> (0 \<le> mm \<and> mm \<le> 59) then Inl (ValueError ''minute must be in 0..59'')
                  else if \<not> (0 \<le> ss \<and> ss \<le> 59) then Inl (ValueError ''second must be in 0..59'')
                  else Inr (hh, mm, ss))
         | _ \<Rightarrow> Inl (ValueError ''daily_time.time must contain integers'')))"

text \<open>
  \<open>times = dtdef.get("time")\<close> made a list: \<open>None\<close> is refused, a string is wrapped, any other
  scalar is not iterable.
\<close>

definition times_of :: "time_value option \<Rightarrow> exn + scalar list" where
  "times_of t =
     (case t of
        None \<Rightarrow> Inl (ValueError ''daily_time requires time'')
      | Some (Time_scalar SNone) \<Rightarrow> Inl (ValueError ''daily_time requires time'')
      | Some (Time_scalar (SStr s)) \<Rightarrow> Inr [SStr s]
      | Some (Time_scalar v) \<Rightarrow> Inl (ValueError ''daily_time.time must be a string or list of strings'')
      | Some (Time_list xs) \<Rightarrow> Inr xs)"

text \<open>\<open>CronTrigger(second=s, minute=m, hour=h, day_of_week=..., timezone=tzinfo)\<close>.\<close>

definition new_cron_trigger :: "('v, 'x) lib \<Rightarrow> cron_fields \<Rightarrow> exn + 'x trigger" where
  "new_cron_trigger lib f =
     (case cron_rejects lib f of Some e \<Rightarrow> Inl (Raised e) | None \<Rightarrow> Inr (CronTrigger f))"

text \<open>
  The branch \<open>kind == "daily_time"\<close> of \<open>_build_trigger\<close>.  \<open>sorted(set(...))\<close> is the list
  of the distinct triples in ascending (lexicographic) order.
\<close>

definition build_daily_time ::
    "('v, 'x) lib \<Rightarrow> dt_value \<Rightarrow> tzinfo option \<Rightarrow> exn + 'x trigger" where
  "build_daily_time lib dtv default_tz =
     (case dtv of
        Dt_not_dict \<Rightarrow> Inl (ValueError ''daily_time must be an object'')
      | Dt_dict dtdef \<Rightarrow>
          if dt_other_keys dtdef \<noteq> [] then Inl (ValueError ''daily_time has unknown field(s)'')
          else
            (case tz_of lib (Tz_scalar (get_scalar (dt_timezone dtdef))) of
               Inl e \<Rightarrow> Inl e
             | Inr own_tz \<Rightarrow>
                 (let tzinfo = (case own_tz of None \<Rightarrow> default_tz | Some t \<Rightarrow> Some t) in
                  case times_of (dt_time dtdef) of
                    Inl e \<Rightarrow> Inl e
                  | Inr time_list \<Rightarrow>
                      (case map_result (parse_time (unicode_decimal lib)) (map py_str time_list) of
                         Inl e \<Rightarrow> Inl e
                       | Inr parsed \<Rightarrow>
                           (let sorted_times = sort (remdups parsed) in
                            case map_result
                                   (\<lambda>(h, m, s).
                                      new_cron_trigger lib
                                        \<lparr>cf_second = s, cf_minute = m, cf_hour = h,
                                         cf_day_of_week = get_scalar (dt_day_of_week dtdef),
                                         cf_timezone = tzinfo\<rparr>)
                                   sorted_times of
                              Inl e \<Rightarrow> Inl e
                            | Inr per_time_triggers \<Rightarrow>
                                Inr (if length per_time_triggers = 1 then hd per_time_triggers
                                     else OrTrigger per_time_triggers))))))"

subsection \<open>\<open>_build_trigger\<close>\<close>

text \<open>
  \<open>_build_trigger(trig_def, tz)\<close>.  The default time zone is resolved before the keys are
  counted.  With exactly one key present, \<open>kind\<close> is that key and its value is there; the
  alternatives written for an absent value are never reached.
\<close>

definition build_trigger :: "('v, 'x) lib \<Rightarrow> 'v trig_def \<Rightarrow> tz_arg \<Rightarrow> exn + 'x trigger" where
  "build_trigger lib trig_def tz =
     (case trig_def of
        Trig_not_dict \<Rightarrow> Inl (ValueError ''trigger spec must be a dict'')
      | Trig_dict d \<Rightarrow>
          (case tz_of lib tz of
             Inl e \<Rightarrow> Inl e
           | Inr default_tz \<Rightarrow>
               (let present = filter (has_value d) [''interval'', ''cron'', ''date'', ''daily_time''] in
                if length present \<noteq> 1
                then Inl (ValueError ''exactly one of {interval,cron,date,daily_time} must be provided'')
                else
                  (let kind = hd present in
                   if kind = ''interval'' then
                     (case td_interval d of
                        Given spec \<Rightarrow> map_sum id Lib_trigger (other_trigger lib kind spec default_tz)
                      | _ \<Rightarrow> Inl (ValueError ''unsupported trigger kind''))
                   else if kind = ''cron'' then
                     (case td_cron d of
                        Given spec \<Rightarrow> map_sum id Lib_trigger (other_trigger lib kind spec default_tz)
                      | _ \<Rightarrow> Inl (ValueError ''unsupported trigger kind''))
                   else if kind = ''date'' then
                     (case td_date d of
                        Given spec \<Rightarrow> map_sum id Lib_trigger (other_trigger lib kind spec default_tz)
                      | _ \<Rightarrow> Inl (ValueError ''unsupported trigger kind''))
                   else if kind = ''daily_time'' then
                     (case td_daily_time d of
                        Given dtdef \<Rightarrow> build_daily_time lib dtdef default_tz
                      | _ \<Rightarrow> Inl (ValueError ''unsupported trigger kind''))
                   else Inl (ValueError ''unsupported trigger kind'')))))"

subsection \<open>Notions used to state the compiler's properties\<close>

text \<open>
  Modelled from the spec: when a compiled trigger fires.  The recurrence rules are objects
  of the scheduling library, outside the repository; the spec gives their contract: a
  rule built for one \<open>(hour, minute, second)\<close> fires at that wall-clock time, in its time
  zone, on each day its \<open>day_of_week\<close> admits, and an OR-combination fires whenever any of
  its rules fires.  An instant is a day and a wall-clock time; \<open>day_ok\<close> says which days a
  \<open>day_of_week\<close> value admits in a time zone, \<open>lib_fires\<close> when a trigger of the other
  branches fires.
\<close>

fun fires ::
    "(scalar \<Rightarrow> tzinfo option \<Rightarrow> 'd \<Rightarrow> bool) \<Rightarrow> ('x \<Rightarrow> 'd \<times> int \<times> int \<times> int \<Rightarrow> bool)
      \<Rightarrow> 'x trigger \<Rightarrow> 'd \<times> int \<times> int \<times> int \<Rightarrow> bool" where
  "fires day_ok lib_fires (CronTrigger f) (d, h, m, s) =
     (day_ok (cf_day_of_week f) (cf_timezone f) d \<and>
      h = cf_hour f \<and> m = cf_minute f \<and> s = cf_second f)"
| "fires day_ok lib_fires (OrTrigger ts) i = list_ex (\<lambda>t. fires day_ok lib_fires t i) ts"
| "fires day_ok lib_fires (Lib_trigger x) i = lib_fires x i"

text \<open>
  A valid time entry as the spec writes it, \<open>HH:MM\<close> or \<open>HH:MM:SS\<close>: two digits each, the
  hour at most 23, minute and second at most 59; and the triple it denotes.
\<close>

definition two_digits :: "char \<Rightarrow> char \<Rightarrow> int" where
  "two_digits a b = int (digit_val a * 10 + digit_val b)"

definition is_hhmm :: "string \<Rightarrow> bool" where
  "is_hhmm e =
     ((length e = 5 \<or> length e = 8) \<and>
      is_digit (e ! 0) \<and> is_digit (e ! 1) \<and> e ! 2 = CHR '':'' \<and>
      is_digit (e ! 3) \<and> is_digit (e ! 4) \<and>
      two_digits (e ! 0) (e ! 1) \<le> 23 \<and> two_digits (e ! 3) (e ! 4) \<le> 59 \<and>
      (length e = 5 \<or>
       e ! 5 = CHR '':'' \<and> is_digit (e ! 6) \<and> is_digit (e ! 7) \<and>
       two_digits (e ! 6) (e ! 7) \<le> 59))"

definition hms_of :: "string \<Rightarrow> int \<times> int \<times> int" where
  "hms_of e =
     (two_digits (e ! 0) (e ! 1), two_digits (e ! 3) (e ! 4),
      if length e = 8 then two_digits (e ! 6) (e ! 7) else 0)"

text \<open>A spec dict with no value under any of the four trigger keys but \<open>daily_time\<close>.\<close>

definition only_daily_time :: "'v trig_dict \<Rightarrow> bool" where
  "only_daily_time d =
     (\<not> given (td_interval d) \<and> \<not> given (td_cron d) \<and> \<not> given (td_date d) \<and>
      given (td_daily_time d))"

text \<open>The number of the four trigger keys present with a value that is not \<open>None\<close>.\<close>

definition count_present :: "'v trig_dict \<Rightarrow> nat" where
  "count_present d =
     (if given (td_interval d) then 1 else 0) + (if given (td_cron d) then 1 else 0) +
     (if given (td_date d) then 1 else 0) + (if given (td_daily_time d) then 1 else 0)"

section \<open>Example data\<close>

text \<open>
  The fixtures of the repository's tests (\<open>tests/conftest.py\<close>): the stub scraper, which
  returns one posting per spec, and the settings built over the two-scraper groups file.
\<close>

definition stub_scraper :: scraper where
  "stub_scraper person specs skip =
     Inr (map (\<lambda>spec.
            \<lparr>sr_source = sc_source spec,
             sr_items =
               [\<lparr>p_source = sc_source spec, p_person_env = person,
                 p_title = sc_source spec @ '' - Engineer'',
                 p_url = ''https://example.com/'' @
                         map (\<lambda>c. if c = CHR '':'' then CHR ''-'' else c) (sc_source spec) @
                         ''/1''\<rparr>],
             sr_errors = []\<rparr>) specs)"

definition test_settings :: settings where
  "test_settings =
     \<lparr>person_env = ''Test User'', groups_path = Some ''groups.json'',
      selected = [\<lparr>sc_kind = ''lever'', sc_source = ''lever:acme'', sc_params = []\<rparr>,
                  \<lparr>sc_kind = ''greenhouse'', sc_source = ''greenhouse:acme'', sc_params = []\<rparr>],
      groups_file = Inr [\<lparr>sc_kind = ''lever'', sc_source = ''lever:acme'', sc_params = []\<rparr>,
                         \<lparr>sc_kind = ''greenhouse'', sc_source = ''greenhouse:acme'',
                          sc_params = []\<rparr>],
      sqlite_path = ''careerwatch.db'', max_threads = 2, skip_network = False,
      email_all_even_if_seen = False, ingest_only_no_email = False\<rparr>"

definition test_env :: env where
  "test_env =
     \<lparr>get_scraper = (\<lambda>kind. Inr stub_scraper), finished_at = (\<lambda>kind. 0),
      elapsed_us = (\<lambda>kind. 0), total_us = 0,
      db = \<lparr>now_iso = ''2025-01-01T00:00:00Z'', db_fault = No_fault\<rparr>\<rparr>"




text \<open>The table after a first run over \<open>test_settings\<close> with the stub scraper.\<close>

definition seen_table :: "row list" where
  "seen_table =
     [\<lparr>r_id = 1, r_source = ''lever:acme'', r_person = ''Test User'',
       r_title = ''lever:acme - Engineer'', r_url = ''https://example.com/lever-acme/1'',
       r_first_seen_utc = ''2024-12-31T00:00:00Z''\<rparr>,
      \<lparr>r_id = 2, r_source = ''greenhouse:acme'', r_person = ''Test User'',
       r_title = ''greenhouse:acme - Engineer'', r_url = ''https://example.com/greenhouse-acme/1'',
       r_first_seen_utc = ''2024-12-31T00:00:00Z''\<rparr>]"

text \<open>The same settings with one of the run's flags set.\<close>

definition offline_settings :: settings where
  "offline_settings = test_settings\<lparr>skip_network := True\<rparr>"

definition offline_resend_settings :: settings where
  "offline_resend_settings = test_settings\<lparr>skip_network := True, email_all_even_if_seen := True\<rparr>"

definition resend_settings :: settings where
  "resend_settings = test_settings\<lparr>email_all_even_if_seen := True\<rparr>"

definition ingest_settings :: settings where
  "ingest_settings = test_settings\<lparr>ingest_only_no_email := True\<rparr>"

text \<open>
  For the trigger compiler: a library that knows every zone key and whose \<open>CronTrigger\<close>
  refuses an hour outside \<open>0..23\<close>, a minute or a second outside \<open>0..59\<close> and a
  \<open>day_of_week\<close> other than \<open>None\<close> or one of three expressions; an interpreter that knows
  the Arabic-Indic digits (U+0660 to U+0669); and the specs of the repository's trigger
  tests (\<open>tests/test_scheduler_triggers.py\<close>).
\<close>

definition test_lib :: "(unit, unit) lib" where
  "test_lib =
     \<lparr>zoneinfo = (\<lambda>key. Inr (ZoneInfo key)),
      cron_rejects =
        (\<lambda>f. if cf_hour f < 0 \<or> 23 < cf_hour f then Some ''ValueError(hour)''
              else if cf_minute f < 0 \<or> 59 < cf_minute f then Some ''ValueError(minute)''
              else if cf_second f < 0 \<or> 59 < cf_second f then Some ''ValueError(second)''
              else if cf_day_of_week f \<notin> set [SNone, SStr ''mon-fri'', SStr ''mon-sat'', SStr ''sun'']
              then Some ''ValueError(day_of_week)''
              else None),
      other_trigger = (\<lambda>kind spec default_tz. Inr ()),
      unicode_decimal =
        (\<lambda>cp. case cp of
                 [a, b] \<Rightarrow>
                   if a = CHR 0xD9 \<and> (0xA0 :: nat) \<le> of_char b \<and> (of_char b :: nat) \<le> 0xA9
                   then Some (of_char b - 0xA0)
                   else None
               | _ \<Rightarrow> None)\<rparr>"

definition daily_def :: daily_time_def where
  "daily_def =
     \<lparr>dt_time = Some (Time_list [SStr ''06:30'', SStr ''05:00'', SStr ''08:00'', SStr ''06:30'']),
      dt_day_of_week = Some (SStr ''mon-sat''), dt_timezone = None, dt_other_keys = []\<rparr>"

definition daily_spec :: "unit trig_dict" where
  "daily_spec =
     \<lparr>td_interval = Absent, td_cron = Absent, td_date = Absent,
      td_daily_time = Given (Dt_dict daily_def)\<rparr>"

definition empty_spec :: "unit trig_dict" where
  "empty_spec = \<lparr>td_interval = Absent, td_cron = Absent, td_date = Absent, td_daily_time = Absent\<rparr>"

definition double_spec :: "unit trig_dict" where
  "double_spec = \<lparr>td_interval = Given (), td_cron = Null, td_date = Absent,
                  td_daily_time = Given (Dt_dict \<lparr>dt_time = Some (Time_scalar (SStr ''03:15'')),
                                                  dt_day_of_week = None, dt_timezone = None,
                                                  dt_other_keys = []\<rparr>)\<rparr>"

section \<open>Properties of the dedup store\<close>

lemma try_insert_fst:
  "fst (try_insert person ts tbl p) = (if dedup_key person p \<in> set (map row_key tbl) then 0 else 1)"
  by (simp add: try_insert_def insert_or_ignore_def dedup_key_def)

lemma try_insert_keys:
  "row_key ` set (snd (try_insert person ts tbl p)) = insert (dedup_key person p) (row_key ` set tbl)"
  by (auto simp: try_insert_def insert_or_ignore_def row_key_def dedup_key_def)

lemma try_insert_noop:
  "dedup_key person p \<in> set (map row_key tbl) \<Longrightarrow> try_insert person ts tbl p = (0, tbl)"
  by (simp add: try_insert_def insert_or_ignore_def dedup_key_def)

lemma loop_step:
  "filter_new_loop person ts (p # ps) tbl new =
     filter_new_loop person ts ps (snd (try_insert person ts tbl p))
       (if fst (try_insert person ts tbl p) = 1 then new @ [emitted person p] else new)"
  by (simp add: try_insert_def emitted_def Let_def split: prod.splits)

lemma rowcounts_step:
  "rowcounts person ts (p # ps) tbl =
     fst (try_insert person ts tbl p) # rowcounts person ts ps (snd (try_insert person ts tbl p))"
  by (simp split: prod.splits)

lemma loop_char:
  "fst (filter_new_loop person ts ps tbl new) =
     new @ map (emitted person) (kept ps (rowcounts person ts ps tbl))"
proof (induction ps arbitrary: tbl new)
  case Nil
  show ?case by (simp add: kept_def)
next
  case (Cons p ps)
  show ?case
    unfolding loop_step rowcounts_step Cons.IH
    by (simp add: kept_def)
qed

lemma loop_keys:
  "row_key ` set (snd (filter_new_loop person ts ps tbl new)) =
     row_key ` set tbl \<union> dedup_key person ` set ps"
proof (induction ps arbitrary: tbl new)
  case Nil
  show ?case by simp
next
  case (Cons p ps)
  show ?case
    unfolding loop_step Cons.IH by (auto simp: try_insert_keys)
qed

lemma loop_noop:
  "dedup_key person ` set ps \<subseteq> set (map row_key tbl) \<Longrightarrow>
     filter_new_loop person ts ps tbl new = (new, tbl)"
proof (induction ps arbitrary: new)
  case Nil
  show ?case by simp
next
  case (Cons p ps)
  then show ?case
    unfolding loop_step by (simp add: try_insert_noop)
qed

lemma rowcounts_length: "length (rowcounts person ts ps tbl) = length ps"
  by (induction ps arbitrary: tbl) (simp_all add: Let_def split: prod.splits)

lemma rowcounts_nth:
  "i < length ps \<Longrightarrow>
     rowcounts person ts ps tbl ! i =
       (if dedup_key person (ps ! i) \<in> set (map row_key tbl) \<union> dedup_key person ` set (take i ps)
        then 0 else 1)"
proof (induction ps arbitrary: tbl i)
  case Nil
  then show ?case by simp
next
  case (Cons p ps)
  show ?case
  proof (cases i)
    case 0
    then show ?thesis unfolding rowcounts_step by (simp add: try_insert_fst)
  next
    case (Suc j)
    with Cons.prems have j: "j < length ps" by simp
    show ?thesis
      unfolding rowcounts_step Suc
      using Cons.IH[OF j, of "snd (try_insert person ts tbl p)"]
      by (simp add: try_insert_keys)
  qed
qed


lemma loop_table_ext:
  "\<exists>ext. snd (filter_new_loop person ts ps tbl new) = tbl @ ext \<and>
         (\<forall>r\<in>set ext. r_person r = strip person \<and> r_first_seen_utc r = ts)"
proof (induction ps arbitrary: tbl new)
  case Nil
  show ?case by simp
next
  case (Cons p ps)
  obtain ext where ext: "snd (filter_new_loop person ts ps (snd (try_insert person ts tbl p))
             (if fst (try_insert person ts tbl p) = 1 then new @ [emitted person p] else new)) =
           snd (try_insert person ts tbl p) @ ext"
      "\<forall>r\<in>set ext. r_person r = strip person \<and> r_first_seen_utc r = ts"
    using Cons.IH by blast
  show ?case
    unfolding loop_step ext(1)
    using ext(2) by (auto simp: try_insert_def insert_or_ignore_def)
qed

lemma loop_count:
  "length (snd (filter_new_loop person ts ps tbl new)) + length new =
     length tbl + length (fst (filter_new_loop person ts ps tbl new))"
proof (induction ps arbitrary: tbl new)
  case Nil
  show ?case by simp
next
  case (Cons p ps)
  show ?case
    unfolding loop_step
    using Cons.IH[of "snd (try_insert person ts tbl p)"
                     "if fst (try_insert person ts tbl p) = 1 then new @ [emitted person p] else new"]
    by (auto simp: try_insert_def insert_or_ignore_def)
qed

lemma insert_diff_fresh: "k \<notin> T \<Longrightarrow> insert k S - T = insert k (S - insert k T)"
  by blast

lemma loop_new_card:
  "length (fst (filter_new_loop person ts ps tbl new)) =
     length new + card (dedup_key person ` set ps - row_key ` set tbl)"
proof (induction ps arbitrary: tbl new)
  case Nil
  show ?case by simp
next
  case (Cons p ps)
  show ?case
  proof (cases "dedup_key person p \<in> row_key ` set tbl")
    case True
    then have "dedup_key person ` set (p # ps) - row_key ` set tbl =
        dedup_key person ` set ps - row_key ` set tbl" by auto
    with True show ?thesis
      unfolding loop_step by (simp add: try_insert_noop Cons.IH)
  next
    case False
    have fin: "finite (dedup_key person ` set ps - insert (dedup_key person p) (row_key ` set tbl))"
      by simp
    have eq: "dedup_key person ` set (p # ps) - row_key ` set tbl =
        insert (dedup_key person p)
          (dedup_key person ` set ps - insert (dedup_key person p) (row_key ` set tbl))"
      unfolding list.set image_insert using False by (rule insert_diff_fresh)
    have "card (dedup_key person ` set (p # ps) - row_key ` set tbl) =
        Suc (card (dedup_key person ` set ps - insert (dedup_key person p) (row_key ` set tbl)))"
      unfolding eq using fin by (subst card_insert_disjoint) auto
    with False show ?thesis
      unfolding loop_step by (simp add: try_insert_fst try_insert_keys Cons.IH)
  qed
qed

text \<open>
  Claim C4.  Idempotence of the dedup store.  When the storage engine does not raise, the
  first call of \<open>filter_new\<close> on a posting list returns the new postings (as many as
  there are distinct dedup keys in the list that the table did not hold, each adding one
  row); a second call with the same path, person and list returns the empty list and
  leaves the table as it is; and the row count stays the same after any further call
  with that list.
\<close>

theorem filter_new_idempotent:
  assumes "db_fault e1 = No_fault" and "db_fault e2 = No_fault"
  shows "(case filter_new e1 tbl path person ps of
            (r1, tbl1, log1) \<Rightarrow>
              (\<exists>new1. r1 = Inr new1 \<and>
                 length new1 = card (dedup_key person ` set ps - row_key ` set tbl) \<and>
                 count_rows tbl1 = count_rows tbl + length new1) \<and>
              filter_new e2 tbl1 path person ps = (Inr [], tbl1, []) \<and>
              (\<forall>e3. count_rows (fst (snd (filter_new e3 tbl1 path person ps))) = count_rows tbl1))"
proof -
  obtain new1 tbl1 where l: "filter_new_loop person (now_iso e1) ps tbl [] = (new1, tbl1)"
    by (cases "filter_new_loop person (now_iso e1) ps tbl []")
  have k: "dedup_key person ` set ps \<subseteq> row_key ` set tbl1"
    using loop_keys[of person "now_iso e1" ps tbl "[]"] l by auto
  have n: "length new1 = card (dedup_key person ` set ps - row_key ` set tbl)"
    using loop_new_card[of person "now_iso e1" ps tbl "[]"] l by simp
  have c: "length tbl1 = length tbl + length new1"
    using loop_count[of person "now_iso e1" ps tbl "[]"] l by simp
  have again: "filter_new_loop person ts ps tbl1 [] = ([], tbl1)" for ts
    using k by (simp add: loop_noop)
  have third: "fst (snd (filter_new e3 tbl1 path person ps)) = tbl1" for e3
    by (cases "db_fault e3") (simp_all add: filter_new_def again)
  show ?thesis
    using assms l n c third by (simp add: filter_new_def again count_rows_def)
qed


theorem filter_new_idempotent_witness:
  "db_fault \<lparr>now_iso = ''t1'', db_fault = No_fault\<rparr> = No_fault \<and>
   db_fault \<lparr>now_iso = ''t2'', db_fault = No_fault\<rparr> = No_fault \<and>
   (case filter_new \<lparr>now_iso = ''t1'', db_fault = No_fault\<rparr> [] ''cw2.db'' ''The Archivist''
           [\<lparr>p_source = ''s1'', p_person_env = ''The Archivist'', p_title = ''T1'', p_url = ''U1''\<rparr>,
            \<lparr>p_source = ''s1'', p_person_env = ''The Archivist'', p_title = ''T2'', p_url = ''U2''\<rparr>] of
      (r1, tbl1, log1) \<Rightarrow>
        (\<exists>new1. r1 = Inr new1 \<and> length new1 = 2 \<and> count_rows tbl1 = 2) \<and>
        filter_new \<lparr>now_iso = ''t2'', db_fault = No_fault\<rparr> tbl1 ''cw2.db'' ''The Archivist''
           [\<lparr>p_source = ''s1'', p_person_env = ''The Archivist'', p_title = ''T1'', p_url = ''U1''\<rparr>,
            \<lparr>p_source = ''s1'', p_person_env = ''The Archivist'', p_title = ''T2'', p_url = ''U2''\<rparr>]
          = (Inr [], tbl1, []))"
  using filter_new_idempotent[where ?e1.0 = "\<lparr>now_iso = ''t1'', db_fault = No_fault\<rparr>"
      and ?e2.0 = "\<lparr>now_iso = ''t2'', db_fault = No_fault\<rparr>" and tbl = "[]"
      and person = "''The Archivist''" and path = "''cw2.db''"
      and ps = "[\<lparr>p_source = ''s1'', p_person_env = ''The Archivist'', p_title = ''T1'', p_url = ''U1''\<rparr>,
        \<lparr>p_source = ''s1'', p_person_env = ''The Archivist'', p_title = ''T2'', p_url = ''U2''\<rparr>]"]
  by (simp add: filter_new_def insert_or_ignore_def row_key_def next_id_def count_rows_def
        strip_def rstrip_def ws1_def ws2_def ws3_def Let_def)

text \<open>
  Claim C6.  When the storage engine does not raise, \<open>filter_new\<close> returns the postings
  whose insert was not a no-op (\<open>rowcount = 1\<close>), in order, and nothing else.  The insert
  of a posting is a no-op exactly when its key --- source, title and url trimmed, with the
  trimmed person of the call --- is the key of a row of the table or of an earlier posting
  of the list; in particular a posting whose trimmed key matches an existing row is left
  out, whatever whitespace surrounds its fields.
\<close>

theorem filter_new_excludes_seen:
  assumes "db_fault env = No_fault"
  shows "fst (filter_new env tbl path person ps) =
           Inr (map (emitted person) (kept ps (rowcounts person (now_iso env) ps tbl))) \<and>
         (\<forall>i<length ps.
            rowcounts person (now_iso env) ps tbl ! i =
              (if dedup_key person (ps ! i) \<in> row_key ` set tbl \<union> dedup_key person ` set (take i ps)
               then 0 else 1)) \<and>
         (\<forall>i<length ps. dedup_key person (ps ! i) \<in> row_key ` set tbl \<longrightarrow>
            rowcounts person (now_iso env) ps tbl ! i = 0)"
proof -
  have "fst (filter_new env tbl path person ps) =
      Inr (fst (filter_new_loop person (now_iso env) ps tbl []))"
    using assms by (simp add: filter_new_def split: prod.splits)
  then show ?thesis
    by (simp add: loop_char rowcounts_nth)
qed

theorem filter_new_excludes_seen_witness:
  "db_fault \<lparr>now_iso = ''t'', db_fault = No_fault\<rparr> = No_fault \<and>
   fst (filter_new \<lparr>now_iso = ''t'', db_fault = No_fault\<rparr>
          [\<lparr>r_id = 1, r_source = ''s1'', r_person = ''Ann'', r_title = ''T1'', r_url = ''U1'',
            r_first_seen_utc = ''t0''\<rparr>]
          ''cw.db'' ''Ann''
          [\<lparr>p_source = '' s1 '', p_person_env = ''Ann'', p_title = [CHR ''T'', CHR ''1'', CHR 0x0A],
            p_url = [CHR 0x09, CHR ''U'', CHR ''1'']\<rparr>,
           \<lparr>p_source = ''s1'', p_person_env = ''Ann'', p_title = ''T2'', p_url = ''U2''\<rparr>]) =
     Inr [\<lparr>p_source = ''s1'', p_person_env = ''Ann'', p_title = ''T2'', p_url = ''U2''\<rparr>] \<and>
   rowcounts ''Ann'' ''t''
     [\<lparr>p_source = '' s1 '', p_person_env = ''Ann'', p_title = [CHR ''T'', CHR ''1'', CHR 0x0A],
       p_url = [CHR 0x09, CHR ''U'', CHR ''1'']\<rparr>,
      \<lparr>p_source = ''s1'', p_person_env = ''Ann'', p_title = ''T2'', p_url = ''U2''\<rparr>]
     [\<lparr>r_id = 1, r_source = ''s1'', r_person = ''Ann'', r_title = ''T1'', r_url = ''U1'',
       r_first_seen_utc = ''t0''\<rparr>] = [0, 1]"
  using filter_new_excludes_seen[where env = "\<lparr>now_iso = ''t'', db_fault = No_fault\<rparr>"
      and tbl = "[\<lparr>r_id = 1, r_source = ''s1'', r_person = ''Ann'', r_title = ''T1'', r_url = ''U1'',
            r_first_seen_utc = ''t0''\<rparr>]"
      and path = "''cw.db''" and person = "''Ann''"
      and ps = "[\<lparr>p_source = '' s1 '', p_person_env = ''Ann'', p_title = [CHR ''T'', CHR ''1'', CHR 0x0A],
            p_url = [CHR 0x09, CHR ''U'', CHR ''1'']\<rparr>,
           \<lparr>p_source = ''s1'', p_person_env = ''Ann'', p_title = ''T2'', p_url = ''U2''\<rparr>]"]
  by (simp add: try_insert_def insert_or_ignore_def row_key_def next_id_def emitted_def kept_def
        dedup_key_def strip_def rstrip_def ws1_def ws2_def ws3_def)

text \<open>
  Claim C9.  In a call of \<open>filter_new\<close> that returns, every row the call stores and every
  posting it returns carries the trimmed \<open>person_env\<close> argument as its person; a posting
  that is new and whose own \<open>person_env\<close> differs from it is returned as a copy with the
  trimmed argument for person and with source, title and url trimmed; and the key does not
  read the posting's own \<open>person_env\<close>, so of two postings of the list that differ in
  that field only, the insert of the later one is a no-op.
\<close>

theorem filter_new_person_is_argument:
  assumes "filter_new env tbl path person ps = (Inr new, tbl', lg)"
  shows "(\<exists>ext. tbl' = tbl @ ext \<and> (\<forall>r\<in>set ext. r_person r = strip person)) \<and>
         (\<forall>q\<in>set new. p_person_env q = strip person) \<and>
         (\<forall>i<length ps.
            rowcounts person (now_iso env) ps tbl ! i = 1 \<and> p_person_env (ps ! i) \<noteq> strip person \<longrightarrow>
            \<lparr>p_source = strip (p_source (ps ! i)), p_person_env = strip person,
             p_title = strip (p_title (ps ! i)), p_url = strip (p_url (ps ! i))\<rparr> \<in> set new) \<and>
         (\<forall>i j x. i < j \<and> j < length ps \<and> ps ! j = (ps ! i)\<lparr>p_person_env := x\<rparr> \<longrightarrow>
            rowcounts person (now_iso env) ps tbl ! j = 0)"
proof -
  from assms have ok: "db_fault env = No_fault"
    by (cases "db_fault env") (simp_all add: filter_new_def)
  from assms ok have new: "new = fst (filter_new_loop person (now_iso env) ps tbl [])"
    and tbl': "tbl' = snd (filter_new_loop person (now_iso env) ps tbl [])"
    by (simp_all add: filter_new_def split: prod.splits)
  have a: "\<exists>ext. tbl' = tbl @ ext \<and> (\<forall>r\<in>set ext. r_person r = strip person)"
    unfolding tbl' using loop_table_ext[of person "now_iso env" ps tbl "[]"] by blast
  have new_eq: "new = map (emitted person) (kept ps (rowcounts person (now_iso env) ps tbl))"
    unfolding new by (simp add: loop_char)
  have b: "\<forall>q\<in>set new. p_person_env q = strip person"
    unfolding new_eq by (auto simp: emitted_def)
  have c: "\<lparr>p_source = strip (p_source (ps ! i)), p_person_env = strip person,
             p_title = strip (p_title (ps ! i)), p_url = strip (p_url (ps ! i))\<rparr> \<in> set new"
    if i: "i < length ps" and rc: "rowcounts person (now_iso env) ps tbl ! i = 1"
      and ne: "p_person_env (ps ! i) \<noteq> strip person" for i
  proof -
    have "(ps ! i, rowcounts person (now_iso env) ps tbl ! i) \<in>
        set (zip ps (rowcounts person (now_iso env) ps tbl))"
      using i by (simp add: in_set_zip rowcounts_length) (metis i rowcounts_length)
    then have "ps ! i \<in> set (kept ps (rowcounts person (now_iso env) ps tbl))"
      using rc by (force simp: kept_def)
    then have "emitted person (ps ! i) \<in> set new"
      unfolding new_eq by simp
    then show ?thesis using ne by (simp add: emitted_def)
  qed
  have d: "rowcounts person (now_iso env) ps tbl ! j = 0"
    if ij: "i < j" "j < length ps" and eq: "ps ! j = (ps ! i)\<lparr>p_person_env := x\<rparr>" for i j x
  proof -
    have "dedup_key person (ps ! j) = dedup_key person (ps ! i)"
      unfolding eq by (simp add: dedup_key_def)
    moreover have "ps ! i \<in> set (take j ps)"
      using ij by (metis in_set_conv_nth length_take min.absorb4 nth_take order.strict_trans)
    ultimately show ?thesis
      using ij by (auto simp: rowcounts_nth)
  qed
  show ?thesis using a b c d by blast
qed

theorem filter_new_person_is_argument_witness:
  "filter_new \<lparr>now_iso = ''t'', db_fault = No_fault\<rparr> [] ''cw.db'' '' Ann ''
     [\<lparr>p_source = ''s1 '', p_person_env = ''Bob'', p_title = ''T1'', p_url = ''U1''\<rparr>,
      \<lparr>p_source = ''s1 '', p_person_env = ''Cy'', p_title = ''T1'', p_url = ''U1''\<rparr>] =
     (Inr [\<lparr>p_source = ''s1'', p_person_env = ''Ann'', p_title = ''T1'', p_url = ''U1''\<rparr>],
      [\<lparr>r_id = 1, r_source = ''s1'', r_person = ''Ann'', r_title = ''T1'', r_url = ''U1'',
        r_first_seen_utc = ''t''\<rparr>],
      []) \<and>
   rowcounts '' Ann '' ''t''
     [\<lparr>p_source = ''s1 '', p_person_env = ''Bob'', p_title = ''T1'', p_url = ''U1''\<rparr>,
      \<lparr>p_source = ''s1 '', p_person_env = ''Cy'', p_title = ''T1'', p_url = ''U1''\<rparr>] [] ! 1 = 0"
proof -
  have h: "filter_new \<lparr>now_iso = ''t'', db_fault = No_fault\<rparr> [] ''cw.db'' '' Ann ''
     [\<lparr>p_source = ''s1 '', p_person_env = ''Bob'', p_title = ''T1'', p_url = ''U1''\<rparr>,
      \<lparr>p_source = ''s1 '', p_person_env = ''Cy'', p_title = ''T1'', p_url = ''U1''\<rparr>] =
     (Inr [\<lparr>p_source = ''s1'', p_person_env = ''Ann'', p_title = ''T1'', p_url = ''U1''\<rparr>],
      [\<lparr>r_id = 1, r_source = ''s1'', r_person = ''Ann'', r_title = ''T1'', r_url = ''U1'',
        r_first_seen_utc = ''t''\<rparr>],
      [])"
    by (simp add: filter_new_def insert_or_ignore_def row_key_def next_id_def
          strip_def rstrip_def ws1_def ws2_def ws3_def Let_def)
  have "rowcounts '' Ann '' ''t''
     [\<lparr>p_source = ''s1 '', p_person_env = ''Bob'', p_title = ''T1'', p_url = ''U1''\<rparr>,
      \<lparr>p_source = ''s1 '', p_person_env = ''Cy'', p_title = ''T1'', p_url = ''U1''\<rparr>] [] ! 1 = 0"
    using filter_new_person_is_argument[OF h, THEN conjunct2, THEN conjunct2, THEN conjunct2,
        rule_format, of 0 1 "''Cy''"]
    by simp
  with h show ?thesis
    by (simp only: simp_thms)
qed

section \<open>Properties of the engine\<close>

lemma setdefault_extend_nonempty: "setdefault_extend k vs d \<noteq> []"
  by (cases d) (auto split: if_splits)

lemma fold_setdefault_nonempty:
  "xs \<noteq> [] \<or> d \<noteq> [] \<Longrightarrow> fold (\<lambda>x d. setdefault_extend (f x) (g x) d) xs d \<noteq> []"
  by (induction xs arbitrary: d) (auto simp: setdefault_extend_nonempty)

lemma setdefault_extend_total:
  "sum_list (map (\<lambda>(k, v). length v) (setdefault_extend k vs d)) =
     sum_list (map (\<lambda>(k, v). length v) d) + length vs"
  by (induction d) auto


lemma selected_scrapers_nonempty: "selected_scrapers s = Inr sel \<Longrightarrow> sel \<noteq> []"
  by (auto simp: selected_scrapers_def split: if_splits sum.splits)

lemma group_by_kind_ok:
  assumes "pool_starts s"
  shows "group_by_kind s = Inr (by_kind_of s)" and "by_kind_of s \<noteq> []"
    and "0 < max_threads s"
proof -
  from assms obtain sel where sel: "selected_scrapers s = Inr sel" and mt: "0 < max_threads s"
    by (auto simp: pool_starts_def split: sum.splits)
  from mt show "0 < max_threads s" .
  from sel show "group_by_kind s = Inr (by_kind_of s)"
    by (simp add: group_by_kind_def by_kind_of_def)
  have "fold (\<lambda>sc by_kind. setdefault_extend (sc_kind sc) [sc] by_kind) sel [] \<noteq> []"
    using selected_scrapers_nonempty[OF sel] by (intro fold_setdefault_nonempty) simp
  with sel show "by_kind_of s \<noteq> []"
    by (simp add: group_by_kind_def by_kind_of_def)
qed

lemma filter_new_ok:
  "db_fault e = No_fault \<Longrightarrow>
     filter_new e tbl path person ps =
       (Inr (fst (filter_new_loop person (now_iso e) ps tbl [])),
        snd (filter_new_loop person (now_iso e) ps tbl []), [])"
  by (simp add: filter_new_def split: prod.splits)

lemma gather_ok:
  "List.map_filter (escapes env s) futs = [] \<Longrightarrow>
     \<exists>d'. gather env s futs (d, r, evs) =
       (Inr (d', r @ concat (map (kind_results env s) futs)),
        evs @ concat (map (kind_events env s) futs))"
proof (induction futs arbitrary: d r evs)
  case Nil
  show ?case by simp
next
  case (Cons f futs)
  obtain kind specs where f: "f = (kind, specs)" by (cases f)
  obtain out did where rk: "run_kind env s kind specs = (out, did)" by (cases "run_kind env s kind specs")
  from Cons.prems have e: "escapes env s (kind, specs) = None"
    and rest: "List.map_filter (escapes env s) futs = []"
    by (auto simp: f List.map_filter_simps split: option.splits)
  show ?case
  proof (cases out)
    case (Inr v)
    obtain k results dt_us skipped where v: "v = (k, results, dt_us, skipped)" by (cases v)
    from Cons.IH[OF rest, of "dict_set k dt_us d" "r @ results" "evs @ did"]
    show ?thesis
      by (simp add: f rk Inr v kind_results_def kind_events_def)
  next
    case (Inl x)
    with e rk obtain e' where x: "x = Of_exception e'"
      by (cases x) (simp_all add: escapes_def)
    from Cons.IH[OF rest,
        of "dict_set kind (case map_of d kind of None \<Rightarrow> 0 | Some d \<Rightarrow> d) d" r
           "evs @ did @ [Scraper_run_error kind e']"]
    show ?thesis
      by (simp add: f rk Inl x kind_results_def kind_events_def)
  qed
qed

lemma gather_stop:
  "List.map_filter (escapes env s) futs = e # es \<Longrightarrow> fst (gather env s futs (d, r, evs)) = Inl e"
proof (induction futs arbitrary: d r evs)
  case Nil
  then show ?case by (simp add: List.map_filter_simps)
next
  case (Cons f futs)
  obtain kind specs where f: "f = (kind, specs)" by (cases f)
  obtain out did where rk: "run_kind env s kind specs = (out, did)" by (cases "run_kind env s kind specs")
  show ?case
  proof (cases "escapes env s (kind, specs)")
    case None
    with Cons.prems have rest: "List.map_filter (escapes env s) futs = e # es"
      by (simp add: f List.map_filter_simps)
    show ?thesis
    proof (cases out)
      case (Inr v)
      obtain k results dt_us skipped where v: "v = (k, results, dt_us, skipped)" by (cases v)
      from Cons.IH[OF rest] show ?thesis
        by (simp add: f rk Inr v)
    next
      case (Inl x)
      with None rk obtain e' where x: "x = Of_exception e'"
        by (cases x) (simp_all add: escapes_def)
      from Cons.IH[OF rest] show ?thesis
        by (simp add: f rk Inl x)
    qed
  next
    case (Some e')
    with Cons.prems have "e' = e"
      by (simp add: f List.map_filter_simps)
    with Some rk have "out = Inl (Of_base_exception e)"
      by (auto simp: escapes_def split: sum.splits raised.splits)
    then show ?thesis
      by (simp add: f rk)
  qed
qed

lemma fan_out_ok:
  assumes "interrupted env s = None"
  shows "gather env s (as_completed env (by_kind_of s)) ([], [], []) =
           (Inr (fst (fan_out env s), fst (snd (fan_out env s))), snd (snd (fan_out env s)))"
    and "fst (snd (fan_out env s)) = concat (map (kind_results env s) (as_completed env (by_kind_of s)))"
    and "snd (snd (fan_out env s)) = concat (map (kind_events env s) (as_completed env (by_kind_of s)))"
proof -
  from assms have "List.map_filter (escapes env s) (as_completed env (by_kind_of s)) = []"
    by (simp add: interrupted_def split: list.splits)
  from gather_ok[OF this, of "[]" "[]" "[]"]
  obtain d' where g: "gather env s (as_completed env (by_kind_of s)) ([], [], []) =
      (Inr (d', concat (map (kind_results env s) (as_completed env (by_kind_of s)))),
       concat (map (kind_events env s) (as_completed env (by_kind_of s))))"
    by auto
  show "gather env s (as_completed env (by_kind_of s)) ([], [], []) =
      (Inr (fst (fan_out env s), fst (snd (fan_out env s))), snd (snd (fan_out env s)))"
    by (simp add: fan_out_def g)
  show "fst (snd (fan_out env s)) = concat (map (kind_results env s) (as_completed env (by_kind_of s)))"
    by (simp add: fan_out_def g)
  show "snd (snd (fan_out env s)) = concat (map (kind_events env s) (as_completed env (by_kind_of s)))"
    by (simp add: fan_out_def g)
qed

lemma fan_out_interrupted:
  assumes "interrupted env s = Some e"
  shows "fst (gather env s (as_completed env (by_kind_of s)) ([], [], [])) = Inl e"
    and "fst (snd (fan_out env s)) = []"
proof -
  from assms obtain es where "List.map_filter (escapes env s) (as_completed env (by_kind_of s)) = e # es"
    by (auto simp: interrupted_def split: list.splits)
  from gather_stop[OF this, of "[]" "[]" "[]"]
  show g: "fst (gather env s (as_completed env (by_kind_of s)) ([], [], [])) = Inl e" .
  then show "fst (snd (fan_out env s)) = []"
    by (cases "gather env s (as_completed env (by_kind_of s)) ([], [], [])") (simp add: fan_out_def)
qed

lemma interrupted_None_iff:
  "(interrupted env s = None) =
     (\<forall>(kind, specs)\<in>set (by_kind_of s). \<forall>e.
        fst (run_kind env s kind specs) \<noteq> Inl (Of_base_exception e))"
proof -
  have n: "(List.map_filter f xs = []) = (\<forall>x\<in>set xs. f x = None)" for f :: "'a \<Rightarrow> 'b option" and xs
    by (induction xs) (auto simp: List.map_filter_simps split: option.splits)
  have "(interrupted env s = None) =
      (List.map_filter (escapes env s) (as_completed env (by_kind_of s)) = [])"
    by (simp add: interrupted_def split: list.splits)
  also have "\<dots> = (\<forall>x\<in>set (as_completed env (by_kind_of s)). escapes env s x = None)"
    by (rule n)
  also have "\<dots> = (\<forall>(kind, specs)\<in>set (by_kind_of s). \<forall>e.
        fst (run_kind env s kind specs) \<noteq> Inl (Of_base_exception e))"
    by (auto simp: as_completed_def escapes_def split: sum.splits raised.splits)
  finally show ?thesis .
qed


lemma pool_size:
  assumes "pool_starts s"
  shows "\<not> min (if by_kind_of s = [] then 1 else int (length (by_kind_of s))) (max_threads s) \<le> 0"
  using group_by_kind_ok(2,3)[OF assms] by (cases "by_kind_of s") auto

lemma run_once_completes:
  assumes "pool_starts s" and "db_fault (db env) = No_fault" and "interrupted env s = None"
  shows "run_once env s tbl =
     (Inr (fst (conclude env s (map (\<lambda>(k, v). (k, length v)) (by_kind_of s)) (fst (fan_out env s))
                  (found_by_source env s) (group_new (new_postings env s tbl)))),
      table_after env s tbl,
      snd (snd (fan_out env s)) @
      snd (conclude env s (map (\<lambda>(k, v). (k, length v)) (by_kind_of s)) (fst (fan_out env s))
             (found_by_source env s) (group_new (new_postings env s tbl))))"
  unfolding run_once_def group_by_kind_ok(1)[OF assms(1)] sum.case Let_def
    if_not_P[OF pool_size[OF assms(1)]] fan_out_ok(1)[OF assms(3)]
  by (simp add: filter_new_ok[OF assms(2)] found_postings_def found_by_source_def new_postings_def
        table_after_def split: prod.splits)

lemma run_once_interrupted:
  assumes "pool_starts s" and "interrupted env s = Some e"
  shows "fst (run_once env s tbl) = Inl (Raised e)" and "fst (snd (run_once env s tbl)) = tbl"
proof -
  obtain out did where g: "gather env s (as_completed env (by_kind_of s)) ([], [], []) = (out, did)"
    by (cases "gather env s (as_completed env (by_kind_of s)) ([], [], [])")
  with fan_out_interrupted(1)[OF assms(2)] have out: "out = Inl e"
    by simp
  show "fst (run_once env s tbl) = Inl (Raised e)" and "fst (snd (run_once env s tbl)) = tbl"
    unfolding run_once_def group_by_kind_ok(1)[OF assms(1)] sum.case Let_def
      if_not_P[OF pool_size[OF assms(1)]] g out
    by simp_all
qed



lemma group_new_total:
  "sum_list (map (snd \<circ> (\<lambda>(src, items). (src, length items))) (group_new new)) = length new"
proof -
  have "sum_list (map (\<lambda>(k, v). length v) (fold (\<lambda>p d. setdefault_extend (p_source p) [p] d) new d)) =
      sum_list (map (\<lambda>(k, v). length v) d) + length new" for d
    by (induction new arbitrary: d) (simp_all add: setdefault_extend_total)
  from this[of "[]"] show ?thesis
    unfolding group_new_def by (simp add: comp_def case_prod_unfold)
qed

lemma str_nat_0: "str_nat 0 = ''0''"
  by (simp add: str_nat.simps digit_char_def)


lemma run_kind_skip:
  "skip_network s \<Longrightarrow>
     run_kind env s kind specs =
       (Inr (kind, [], 0, True),
        [Skipped_kind (person_env s) kind (length specs) (map sc_source specs)])"
  by (simp add: run_kind_def)

lemma skip_not_interrupted:
  assumes "skip_network s"
  shows "interrupted env s = None"
  unfolding interrupted_None_iff
  by (simp add: run_kind_skip[OF assms] case_prod_unfold)

lemma skip_no_results:
  assumes "skip_network s"
  shows "fst (snd (fan_out env s)) = []"
  unfolding fan_out_ok(2)[OF skip_not_interrupted[OF assms]]
  by (simp add: kind_results_def run_kind_skip[OF assms] case_prod_unfold)

lemma skip_no_calls:
  assumes "skip_network s"
  shows "filter is_scraper_call (snd (snd (fan_out env s))) = []"
  unfolding fan_out_ok(3)[OF skip_not_interrupted[OF assms]]
  by (simp add: kind_events_def run_kind_skip[OF assms] case_prod_unfold filter_concat comp_def)

lemma conclude_no_calls:
  "filter is_scraper_call (snd (conclude env s pl du pre new)) = []"
  by (simp add: conclude_def Let_def)

lemma conclude_none:
  "(fst (conclude env s pl du pre new) = None) =
     (ingest_only_no_email s \<or> \<not> email_all_even_if_seen s \<and> new = [])"
  by (simp add: conclude_def Let_def)

lemma group_new_Nil: "group_new [] = []"
  by (simp add: group_new_def)

text \<open>
  Claim C2, as amended.  In a run with \<open>skip_network\<close> set (that reaches the fan-out and
  whose store call does not raise) no call is made on the scraper lookup or on a scraper,
  nothing is found and the table is left as it is.  The run returns \<open>None\<close> when
  \<open>ingest_only_no_email\<close> is set or \<open>email_all_even_if_seen\<close> is not; when
  \<open>email_all_even_if_seen\<close> is set and \<open>ingest_only_no_email\<close> is not, it returns
  \<open>(html, meta)\<close> for the empty render set, with \<open>new_total = 0\<close>.
\<close>

theorem skip_network_outcome:
  assumes "skip_network s" and "pool_starts s" and "db_fault (db env) = No_fault"
  shows "filter is_scraper_call (snd (snd (run_once env s tbl))) = [] \<and>
         found_postings env s = [] \<and>
         fst (snd (run_once env s tbl)) = tbl \<and>
         (ingest_only_no_email s \<or> \<not> email_all_even_if_seen s \<longrightarrow>
            fst (run_once env s tbl) = Inr None) \<and>
         (\<not> ingest_only_no_email s \<and> email_all_even_if_seen s \<longrightarrow>
            (\<exists>meta. fst (run_once env s tbl) =
               Inr (Some (wrap_document (build_tables []) (''Career Watch '' @ em_dash @ '' '' @ person_env s)
                            (summary_message [] (person_env s) ''all postings''), meta)) \<and>
               m_new_total meta = 0 \<and> m_by_source meta = []))"
proof -
  have found: "found_postings env s = []"
    by (simp add: found_postings_def skip_no_results[OF assms(1)])
  have pre: "found_by_source env s = []"
    by (simp add: found_by_source_def skip_no_results[OF assms(1)])
  have new: "new_postings env s tbl = []"
    by (simp add: new_postings_def found filter_new_ok[OF assms(3)])
  have tbl: "table_after env s tbl = tbl"
    by (simp add: table_after_def found filter_new_ok[OF assms(3)])
  show ?thesis
    unfolding run_once_completes[OF assms(2,3) skip_not_interrupted[OF assms(1)]]
      found pre new tbl group_new_Nil
    by (simp add: skip_no_calls[OF assms(1)] conclude_no_calls) (simp add: conclude_def Let_def)
qed














text \<open>
  Claim C10.  In a run with \<open>email_all_even_if_seen\<close> set and \<open>ingest_only_no_email\<close> not
  set (that reaches the fan-out and whose store call does not raise), unless a future
  raises outside \<open>Exception\<close>, which \<open>run_once\<close> then raises, \<open>run_once\<close> returns
  \<open>(html, meta)\<close> with the html rendered from the pre-dedupe view, while
  \<open>meta["new_total"]\<close> is the number of postings the dedup call returned as new and the
  subject is built from those postings alone; when none is new, \<open>new_total\<close> is 0 and
  the subject is \<open>Career Watch --- 0 new jobs (0 companies)\<close>.
\<close>

theorem subject_counts_new_only:
  assumes "email_all_even_if_seen s" and "\<not> ingest_only_no_email s"
    and "pool_starts s" and "db_fault (db env) = No_fault"
  shows "case interrupted env s of
           Some e \<Rightarrow> fst (run_once env s tbl) = Inl (Raised e)
         | None \<Rightarrow>
         \<exists>meta. fst (run_once env s tbl) =
           Inr (Some (wrap_document (build_tables (found_by_source env s))
                        (''Career Watch '' @ em_dash @ '' '' @ person_env s)
                        (summary_message (found_by_source env s) (person_env s) ''all postings''),
                      meta)) \<and>
           m_new_total meta = length (new_postings env s tbl) \<and>
           m_subject meta =
             (let sources_with_jobs =
                    map fst (filter (\<lambda>(src, items). items \<noteq> []) (group_new (new_postings env s tbl)))
              in if length sources_with_jobs = 1
                 then ''Career Watch '' @ em_dash @ '' '' @ str_nat (length (new_postings env s tbl)) @
                      '' new at '' @ hd sources_with_jobs
                 else ''Career Watch '' @ em_dash @ '' '' @ str_nat (length (new_postings env s tbl)) @
                      '' new jobs ('' @ str_nat (length sources_with_jobs) @ '' companies)'') \<and>
           (new_postings env s tbl = [] \<longrightarrow>
              m_new_total meta = 0 \<and>
              m_subject meta = ''Career Watch '' @ em_dash @ '' 0 new jobs (0 companies)'')"
proof (cases "interrupted env s")
  case (Some e)
  then show ?thesis
    by (simp add: run_once_interrupted(1)[OF assms(3)])
next
  case None
  show ?thesis
    unfolding None option.case run_once_completes[OF assms(3,4) None]
    using assms(1,2)
    by (auto simp: conclude_def Let_def group_new_total group_new_Nil str_nat_0)
qed



lemmas settings_defs = test_settings_def offline_settings_def offline_resend_settings_def
  resend_settings_def ingest_settings_def

text \<open>
  Claim C2 as stated fails: with \<open>skip_network\<close> and \<open>email_all_even_if_seen\<close> set, zero
  postings are found and the run still returns \<open>(html, meta)\<close>, not \<open>None\<close>.
\<close>

theorem skip_network_returns_none_counterexample:
  "skip_network offline_resend_settings \<and>
   email_all_even_if_seen offline_resend_settings \<and>
   \<not> ingest_only_no_email offline_resend_settings \<and>
   found_postings test_env offline_resend_settings = [] \<and>
   fst (run_once test_env offline_resend_settings []) \<noteq> Inr None \<and>
   map_sum id (map_option (m_new_total \<circ> snd)) (fst (run_once test_env offline_resend_settings [])) =
     Inr (Some 0)"
  by code_simp


theorem skip_network_outcome_witness:
  "skip_network offline_settings \<and> pool_starts offline_settings \<and> db_fault (db test_env) = No_fault \<and>
   filter is_scraper_call (snd (snd (run_once test_env offline_settings seen_table))) = [] \<and>
   fst (snd (run_once test_env offline_settings seen_table)) = seen_table \<and>
   fst (run_once test_env offline_settings seen_table) = Inr None"
proof -
  have h: "skip_network offline_settings" "pool_starts offline_settings"
      "db_fault (db test_env) = No_fault" "\<not> email_all_even_if_seen offline_settings"
    by (simp_all add: settings_defs test_env_def pool_starts_def selected_scrapers_def)
  show ?thesis
    using skip_network_outcome[OF h(1,2,3), of seen_table] h by simp
qed




theorem subject_counts_new_only_witness:
  "email_all_even_if_seen resend_settings \<and> \<not> ingest_only_no_email resend_settings \<and>
   pool_starts resend_settings \<and> db_fault (db test_env) = No_fault \<and>
   new_postings test_env resend_settings seen_table = [] \<and>
   found_postings test_env resend_settings \<noteq> [] \<and>
   (\<exists>meta. fst (run_once test_env resend_settings seen_table) =
      Inr (Some (wrap_document (build_tables (found_by_source test_env resend_settings))
                   (''Career Watch '' @ em_dash @ '' '' @ person_env resend_settings)
                   (summary_message (found_by_source test_env resend_settings)
                      (person_env resend_settings) ''all postings''),
                 meta)) \<and>
      m_new_total meta = 0 \<and>
      m_subject meta = ''Career Watch '' @ em_dash @ '' 0 new jobs (0 companies)'')"
proof -
  have h: "email_all_even_if_seen resend_settings" "\<not> ingest_only_no_email resend_settings"
      "pool_starts resend_settings" "db_fault (db test_env) = No_fault"
    by (simp_all add: settings_defs test_env_def pool_starts_def selected_scrapers_def)
  have f: "found_postings test_env resend_settings \<noteq> []"
    by code_simp
  have n: "new_postings test_env resend_settings seen_table = []"
    by code_simp
  have i: "interrupted test_env resend_settings = None"
    by code_simp
  show ?thesis
    using subject_counts_new_only[OF h, of seen_table] h f n by (auto simp: i)
qed

section \<open>Properties of the trigger compiler\<close>

lemma digit_facts:
  "is_digit c \<Longrightarrow> \<not> int_space c \<and> c \<noteq> CHR 0xC2 \<and> c \<noteq> CHR '':'' \<and> c \<noteq> CHR ''-'' \<and> c \<noteq> CHR ''+''"
  by (auto simp: is_digit_def int_space_def)

lemma digit_ascii: "is_digit c \<Longrightarrow> utf8_len c = 1 \<and> (of_char c :: nat) < 0x80"
  by (auto simp: is_digit_def utf8_len_def)

lemma digit_of_digit: "is_digit c \<Longrightarrow> digit_of ud [c] = Some (digit_val c)"
  by (simp add: digit_of_def digit_ascii)

lemma int_strip_two_digits:
  assumes "is_digit a" and "is_digit b"
  shows "int_strip [a, b] = [a, b]"
  using digit_facts[OF assms(1)] digit_facts[OF assms(2)]
  by (simp add: int_strip_def ws2_def)

lemma py_int_two_digits:
  assumes "is_digit a" and "is_digit b"
  shows "py_int ud [a, b] = Some (two_digits a b)"
  using digit_facts[OF assms(1)] digit_ascii[OF assms(1)] digit_ascii[OF assms(2)]
  by (simp add: py_int_def int_strip_two_digits[OF assms] py_nat_def two_digits_def
        digit_of_digit[OF assms(1)] digit_of_digit[OF assms(2)])

lemma no_overflow: "- (2 ^ 31) \<le> i \<Longrightarrow> i < 2 ^ 31 \<Longrightarrow> c_int_overflow i = None"
  by (simp add: c_int_overflow_def)

lemma two_digits_no_overflow: "two_digits a b \<le> 59 \<Longrightarrow> c_int_overflow (two_digits a b) = None"
  by (rule no_overflow) (simp_all add: two_digits_def)

lemma zero_no_overflow: "c_int_overflow 0 = None"
  by (simp add: c_int_overflow_def)

lemma split_hhmm:
  assumes "is_digit a" "is_digit b" "is_digit d" "is_digit f"
  shows "split_on (CHR '':'') [a, b, CHR '':'', d, f] = [[a, b], [d, f]]"
  using assms[THEN digit_facts] by simp

lemma split_hhmmss:
  assumes "is_digit a" "is_digit b" "is_digit d" "is_digit f" "is_digit g" "is_digit h"
  shows "split_on (CHR '':'') [a, b, CHR '':'', d, f, CHR '':'', g, h] = [[a, b], [d, f], [g, h]]"
  using assms[THEN digit_facts] by simp

lemma two_digits_nonneg: "0 \<le> two_digits a b"
  by (simp add: two_digits_def)

lemma list5: "length e = 5 \<Longrightarrow> e = [e ! 0, e ! 1, e ! 2, e ! 3, e ! 4]"
  by (simp add: list_eq_iff_nth_eq less_Suc_eq nth_Cons' numeral_eq_Suc)

lemma list8: "length e = 8 \<Longrightarrow> e = [e ! 0, e ! 1, e ! 2, e ! 3, e ! 4, e ! 5, e ! 6, e ! 7]"
  by (simp add: list_eq_iff_nth_eq less_Suc_eq nth_Cons' numeral_eq_Suc)

lemma parse_time_hhmm:
  assumes "is_hhmm e"
  shows "parse_time ud e = Inr (hms_of e)"
    and "case hms_of e of (h, m, s) \<Rightarrow> 0 \<le> h \<and> h \<le> 23 \<and> 0 \<le> m \<and> m \<le> 59 \<and> 0 \<le> s \<and> s \<le> 59"
proof -
  from assms have d: "is_digit (e ! 0)" "is_digit (e ! 1)" "e ! 2 = CHR '':''"
      "is_digit (e ! 3)" "is_digit (e ! 4)"
    and r: "two_digits (e ! 0) (e ! 1) \<le> 23" "two_digits (e ! 3) (e ! 4) \<le> 59"
    and l: "length e = 5 \<or>
       length e = 8 \<and> e ! 5 = CHR '':'' \<and> is_digit (e ! 6) \<and> is_digit (e ! 7) \<and>
       two_digits (e ! 6) (e ! 7) \<le> 59"
    by (auto simp: is_hhmm_def)
  from l r show "case hms_of e of (h, m, s) \<Rightarrow>
      0 \<le> h \<and> h \<le> 23 \<and> 0 \<le> m \<and> m \<le> 59 \<and> 0 \<le> s \<and> s \<le> 59"
    by (auto simp: hms_of_def two_digits_nonneg)
  from l show "parse_time ud e = Inr (hms_of e)"
  proof
    assume l5: "length e = 5"
    have sp: "split_on (CHR '':'') e = [[e ! 0, e ! 1], [e ! 3, e ! 4]]"
      by (subst list5[OF l5]) (simp only: d(3) split_hhmm[OF d(1,2,4,5)])
    have p: "py_int ud [e ! 0, e ! Suc 0] = Some (two_digits (e ! 0) (e ! Suc 0))"
        "py_int ud [e ! 3, e ! 4] = Some (two_digits (e ! 3) (e ! 4))"
      using py_int_two_digits[OF d(1,2)] py_int_two_digits[OF d(4,5)] by simp_all
    have o: "c_int_overflow (two_digits (e ! 0) (e ! Suc 0)) = None"
        "c_int_overflow (two_digits (e ! 3) (e ! 4)) = None"
      using r by (simp_all add: two_digits_no_overflow)
    show ?thesis
      unfolding parse_time_def sp
      using r l5
      by (simp add: p o zero_no_overflow hms_of_def two_digits_nonneg)
  next
    assume l8: "length e = 8 \<and> e ! 5 = CHR '':'' \<and> is_digit (e ! 6) \<and> is_digit (e ! 7) \<and>
       two_digits (e ! 6) (e ! 7) \<le> 59"
    then have len: "length e = 8" and c: "e ! 5 = CHR '':''"
      and d2: "is_digit (e ! 6)" "is_digit (e ! 7)" and r2: "two_digits (e ! 6) (e ! 7) \<le> 59"
      by simp_all
    have sp: "split_on (CHR '':'') e = [[e ! 0, e ! 1], [e ! 3, e ! 4], [e ! 6, e ! 7]]"
      by (subst list8[OF len]) (simp only: d(3) c split_hhmmss[OF d(1,2,4,5) d2])
    have p: "py_int ud [e ! 0, e ! Suc 0] = Some (two_digits (e ! 0) (e ! Suc 0))"
        "py_int ud [e ! 3, e ! 4] = Some (two_digits (e ! 3) (e ! 4))"
        "py_int ud [e ! 6, e ! 7] = Some (two_digits (e ! 6) (e ! 7))"
      using py_int_two_digits[OF d(1,2)] py_int_two_digits[OF d(4,5)] py_int_two_digits[OF d2]
      by simp_all
    have o: "c_int_overflow (two_digits (e ! 0) (e ! Suc 0)) = None"
        "c_int_overflow (two_digits (e ! 3) (e ! 4)) = None"
        "c_int_overflow (two_digits (e ! 6) (e ! 7)) = None"
      using r r2 by (simp_all add: two_digits_no_overflow)
    show ?thesis
      unfolding parse_time_def sp
      using r r2 len
      by (simp add: p o zero_no_overflow hms_of_def two_digits_nonneg)
  qed
qed

text \<open>
  \<open>int\<close> and \<open>_parse_time\<close> at some inputs: a separator U+001C is not dropped, a space
  and a no-break space are; digits beyond ASCII count; an hour beyond a C \<open>int\<close> is an
  \<open>OverflowError\<close>, an hour of 24 a \<open>ValueError\<close>.
\<close>

lemmas int_defs = py_int_def int_strip_def int_space_def ws2_def ws3_def py_nat_def digit_of_def
  is_digit_def digit_val_def utf8_len_def test_lib_def

lemma int_examples:
  "py_int (unicode_decimal test_lib) [CHR 0x1C, CHR ''0'', CHR ''6''] = None \<and>
   py_int (unicode_decimal test_lib)
     [CHR 0x20, CHR ''0'', CHR ''_'', CHR ''6'', CHR 0xC2, CHR 0xA0] = Some 6 \<and>
   py_int (unicode_decimal test_lib) [CHR 0xD9, CHR 0xA1, CHR 0xD9, CHR 0xA2] = Some 12 \<and>
   py_int (unicode_decimal test_lib) ''-7'' = Some (- 7) \<and>
   py_int (unicode_decimal test_lib) ''1__0'' = None"
  by (simp add: int_defs)

lemma parse_time_examples:
  "parse_time (unicode_decimal test_lib) ''2147483648:00'' =
     Inl (OverflowError ''signed integer is greater than maximum'') \<and>
   parse_time (unicode_decimal test_lib) ''24:00'' = Inl (ValueError ''hour must be in 0..23'') \<and>
   parse_time (unicode_decimal test_lib) ''7:5'' = Inr (7, 5, 0) \<and>
   parse_time (unicode_decimal test_lib) ''7'' =
     Inl (ValueError ''daily_time.time must be HH:MM or HH:MM:SS'') \<and>
   parse_time (unicode_decimal test_lib) ''7:x'' =
     Inl (ValueError ''daily_time.time must contain integers'')"
  by (simp add: parse_time_def int_defs c_int_overflow_def List.map_filter_simps)

lemma map_result_all_ok:
  "\<forall>x\<in>set xs. f x = Inr (g x) \<Longrightarrow> map_result f xs = Inr (map g xs)"
  by (induction xs) simp_all

lemma count_present_filter:
  "length (filter (has_value d) [''interval'', ''cron'', ''date'', ''daily_time'']) = count_present d"
  by (simp add: has_value_def count_present_def)

text \<open>
  Claim C7.  For a trigger spec dict in which the number of keys among \<open>interval\<close>,
  \<open>cron\<close>, \<open>date\<close>, \<open>daily_time\<close> present with a value that is not \<open>None\<close> is not
  exactly one, \<open>_build_trigger\<close> raises and produces no trigger: the \<open>ValueError\<close>
  "exactly one of ... must be provided", or, when the scheduler's time zone cannot be
  resolved, the exception of that lookup, which is made first.
\<close>

theorem not_exactly_one_kind_fails:
  assumes "count_present d \<noteq> 1"
  shows "build_trigger lib (Trig_dict d) tz =
           Inl (case tz_of lib tz of
                  Inl e \<Rightarrow> e
                | Inr default_tz \<Rightarrow>
                    ValueError ''exactly one of {interval,cron,date,daily_time} must be provided'')"
  using assms unfolding build_trigger_def Let_def count_present_filter
  by (simp split: sum.splits)



theorem not_exactly_one_kind_fails_witness:
  "count_present empty_spec \<noteq> 1 \<and> count_present double_spec \<noteq> 1 \<and>
   build_trigger test_lib (Trig_dict empty_spec) (Tz_scalar (SStr ''UTC'')) =
     Inl (ValueError ''exactly one of {interval,cron,date,daily_time} must be provided'') \<and>
   build_trigger test_lib (Trig_dict double_spec) (Tz_scalar (SStr ''UTC'')) =
     Inl (ValueError ''exactly one of {interval,cron,date,daily_time} must be provided'')"
proof -
  have h: "count_present empty_spec \<noteq> 1" "count_present double_spec \<noteq> 1"
    by (simp_all add: count_present_def empty_spec_def double_spec_def)
  have t: "tz_of test_lib (Tz_scalar (SStr ''UTC'')) = Inr (Some (ZoneInfo ''UTC''))"
    by (simp add: tz_of_def test_lib_def truthy_def py_str_def)
  show ?thesis
    using not_exactly_one_kind_fails[OF h(1), of test_lib "Tz_scalar (SStr ''UTC'')"]
      not_exactly_one_kind_fails[OF h(2), of test_lib "Tz_scalar (SStr ''UTC'')"] h
    by (simp add: t)
qed

lemma only_daily_time_present:
  "only_daily_time d \<Longrightarrow>
     filter (has_value d) [''interval'', ''cron'', ''date'', ''daily_time''] = [''daily_time'']"
  by (simp add: only_daily_time_def has_value_def)

lemma fires_daily:
  assumes "\<And>h m s. rule (h, m, s) =
             CronTrigger \<lparr>cf_second = s, cf_minute = m, cf_hour = h,
                           cf_day_of_week = dow, cf_timezone = z\<rparr>"
  shows "fires day_ok lf (if length ts = 1 then rule (hd ts) else OrTrigger (map rule ts))
           (day, h, m, s) =
         (day_ok dow z day \<and> (h, m, s) \<in> set ts)"
proof (cases "length ts = 1")
  case True
  then obtain t where ts: "ts = [t]"
    by (cases ts) simp_all
  show ?thesis
    by (cases t) (auto simp: ts assms)
next
  case False
  have "fires day_ok lf (rule t) (day, h, m, s) = (day_ok dow z day \<and> (h, m, s) = t)" for t
    by (cases t) (auto simp: assms)
  with False show ?thesis
    by (auto simp: list_ex_iff)
qed

text \<open>
  Claim C1.  For a spec with \<open>daily_time\<close> as its only trigger key, holding a dict with no
  unknown key whose time zone resolves and whose \<open>day_of_week\<close> the library accepts (its
  \<open>CronTrigger\<close> takes that \<open>day_of_week\<close> and time zone with an hour in \<open>0..23\<close> and a
  minute and second in \<open>0..59\<close>; it may refuse any field out of range), and whose \<open>time\<close>
  entries are valid \<open>HH:MM\<close> or \<open>HH:MM:SS\<close> strings: \<open>_build_trigger\<close>
  returns the rule of the one triple when the entries denote exactly one triple, and
  otherwise the OR-combination of one rule per distinct triple, the triples in ascending
  order without repetition; and the trigger fires at a wall-clock instant of an admitted
  day exactly when its \<open>(hour, minute, second)\<close> is the triple of one of the entries, so
  at no combination of the hour of one entry with the minute or second of another.
\<close>

theorem daily_time_fires_exactly:
  assumes "only_daily_time d" and "td_daily_time d = Given (Dt_dict dtdef)"
    and "dt_other_keys dtdef = []"
    and "tz_of lib tz = Inr default_tz"
    and "tz_of lib (Tz_scalar (get_scalar (dt_timezone dtdef))) = Inr own_tz"
    and "times_of (dt_time dtdef) = Inr (map SStr entries)"
    and "\<forall>e\<in>set entries. is_hhmm e"
    and "\<forall>h m s. 0 \<le> h \<and> h \<le> 23 \<and> 0 \<le> m \<and> m \<le> 59 \<and> 0 \<le> s \<and> s \<le> 59 \<longrightarrow>
           cron_rejects lib
             \<lparr>cf_second = s, cf_minute = m, cf_hour = h,
              cf_day_of_week = get_scalar (dt_day_of_week dtdef),
              cf_timezone = (case own_tz of None \<Rightarrow> default_tz | Some t \<Rightarrow> Some t)\<rparr> = None"
  shows "(let tzinfo = (case own_tz of None \<Rightarrow> default_tz | Some t \<Rightarrow> Some t);
              rule = (\<lambda>(h, m, s). CronTrigger \<lparr>cf_second = s, cf_minute = m, cf_hour = h,
                                     cf_day_of_week = get_scalar (dt_day_of_week dtdef),
                                     cf_timezone = tzinfo\<rparr>);
              triples = sort (remdups (map hms_of entries));
              trig = (if length triples = 1 then rule (hd triples) else OrTrigger (map rule triples))
          in build_trigger lib (Trig_dict d) tz = Inr trig \<and>
             distinct triples \<and> sorted triples \<and> set triples = hms_of ` set entries \<and>
             (\<forall>day h m s.
                fires day_ok lib_fires trig (day, h, m, s) =
                  (day_ok (get_scalar (dt_day_of_week dtdef)) tzinfo day \<and>
                   (h, m, s) \<in> hms_of ` set entries)))"
proof -
  define tzinfo where "tzinfo = (case own_tz of None \<Rightarrow> default_tz | Some t \<Rightarrow> Some t)"
  define dow where "dow = get_scalar (dt_day_of_week dtdef)"
  define rule :: "int \<times> int \<times> int \<Rightarrow> 'b trigger" where
    "rule = (\<lambda>(h, m, s). CronTrigger \<lparr>cf_second = s, cf_minute = m, cf_hour = h,
               cf_day_of_week = dow, cf_timezone = tzinfo\<rparr>)"
  define triples where "triples = sort (remdups (map hms_of entries))"
  define trig where "trig = (if length triples = 1 then rule (hd triples) else OrTrigger (map rule triples))"
  have parsed: "map_result (parse_time (unicode_decimal lib)) (map py_str (map SStr entries)) =
      Inr (map hms_of entries)"
  proof -
    have "map_result (parse_time (unicode_decimal lib)) entries = Inr (map hms_of entries)"
      using assms(7) by (intro map_result_all_ok) (simp add: parse_time_hhmm(1))
    moreover have "map py_str (map SStr entries) = entries"
      by (induction entries) (simp_all add: py_str_def)
    ultimately show ?thesis by simp
  qed
  have in_range: "0 \<le> h \<and> h \<le> 23 \<and> 0 \<le> m \<and> m \<le> 59 \<and> 0 \<le> s \<and> s \<le> 59"
    if "(h, m, s) \<in> set triples" for h m s
  proof -
    from that obtain e where "e \<in> set entries" and "hms_of e = (h, m, s)"
      by (auto simp: triples_def)
    with assms(7) parse_time_hhmm(2)[of e] show ?thesis
      by auto
  qed
  have accepted: "new_cron_trigger lib
         \<lparr>cf_second = s, cf_minute = m, cf_hour = h, cf_day_of_week = dow, cf_timezone = tzinfo\<rparr> =
       Inr (rule (h, m, s))"
    if "(h, m, s) \<in> set triples" for h m s
    using assms(8)[rule_format, OF in_range[OF that]]
    by (simp add: new_cron_trigger_def rule_def dow_def tzinfo_def)
  have crons: "map_result (\<lambda>(h, m, s). new_cron_trigger lib
         \<lparr>cf_second = s, cf_minute = m, cf_hour = h, cf_day_of_week = dow, cf_timezone = tzinfo\<rparr>)
       triples = Inr (map rule triples)"
    by (intro map_result_all_ok) (auto simp: accepted)
  have hd_rule: "length triples = 1 \<Longrightarrow> hd (map rule triples) = rule (hd triples)"
    by (cases triples) simp_all
  have bd: "build_daily_time lib (Dt_dict dtdef) default_tz = Inr trig"
    unfolding build_daily_time_def
    using assms(3,5,6) parsed crons hd_rule
    by (simp add: Let_def tzinfo_def[symmetric] dow_def[symmetric] triples_def[symmetric] trig_def)
  have bt: "build_trigger lib (Trig_dict d) tz = Inr trig"
    unfolding build_trigger_def trig_def.case assms(4) sum.case Let_def
      only_daily_time_present[OF assms(1)]
    using assms(2) bd
    by simp
  have st: "set triples = hms_of ` set entries" "distinct triples" "sorted triples"
    by (simp_all add: triples_def)
  have fr: "fires day_ok lib_fires trig (day, h, m, s) =
      (day_ok dow tzinfo day \<and> (h, m, s) \<in> hms_of ` set entries)" for day h m s
    unfolding trig_def st(1)[symmetric]
    by (rule fires_daily) (simp add: rule_def)
  show ?thesis
    using bt st fr
    unfolding Let_def tzinfo_def[symmetric] dow_def[symmetric] rule_def[symmetric]
      triples_def[symmetric] trig_def[symmetric]
    by simp
qed


theorem daily_time_fires_exactly_witness:
  "only_daily_time daily_spec \<and>
   list_all is_hhmm [''06:30'', ''05:00'', ''08:00'', ''06:30''] \<and>
   cron_rejects test_lib
     \<lparr>cf_second = 0, cf_minute = 0, cf_hour = 24, cf_day_of_week = SStr ''mon-sat'',
      cf_timezone = Some (ZoneInfo ''America/Indiana/Indianapolis'')\<rparr> = Some ''ValueError(hour)'' \<and>
   build_trigger test_lib (Trig_dict daily_spec) (Tz_scalar (SStr ''America/Indiana/Indianapolis'')) =
     Inr (OrTrigger
           [CronTrigger \<lparr>cf_second = 0, cf_minute = 0, cf_hour = 5, cf_day_of_week = SStr ''mon-sat'',
                          cf_timezone = Some (ZoneInfo ''America/Indiana/Indianapolis'')\<rparr>,
            CronTrigger \<lparr>cf_second = 0, cf_minute = 30, cf_hour = 6, cf_day_of_week = SStr ''mon-sat'',
                          cf_timezone = Some (ZoneInfo ''America/Indiana/Indianapolis'')\<rparr>,
            CronTrigger \<lparr>cf_second = 0, cf_minute = 0, cf_hour = 8, cf_day_of_week = SStr ''mon-sat'',
                          cf_timezone = Some (ZoneInfo ''America/Indiana/Indianapolis'')\<rparr>]) \<and>
   (\<exists>trig. build_trigger test_lib (Trig_dict daily_spec)
             (Tz_scalar (SStr ''America/Indiana/Indianapolis'')) = Inr trig \<and>
      fires (\<lambda>dow z day. True) (\<lambda>x i. False) trig (0 :: nat, 6, 30, 0) \<and>
      \<not> fires (\<lambda>dow z day. True) (\<lambda>x i. False) trig (0 :: nat, 6, 0, 0) \<and>
      \<not> fires (\<lambda>dow z day. True) (\<lambda>x i. False) trig (0 :: nat, 8, 30, 0))"
proof -
  have h1: "only_daily_time daily_spec"
    by (simp add: only_daily_time_def daily_spec_def)
  have h2: "td_daily_time daily_spec = Given (Dt_dict daily_def)"
    by (simp add: daily_spec_def)
  have h3: "dt_other_keys daily_def = []"
    by (simp add: daily_def_def)
  have h4: "tz_of test_lib (Tz_scalar (SStr ''America/Indiana/Indianapolis'')) =
      Inr (Some (ZoneInfo ''America/Indiana/Indianapolis''))"
    by (simp add: tz_of_def test_lib_def truthy_def py_str_def)
  have h5: "tz_of test_lib (Tz_scalar (get_scalar (dt_timezone daily_def))) = Inr None"
    by (simp add: tz_of_def daily_def_def get_scalar_def truthy_def)
  have h6: "times_of (dt_time daily_def) = Inr (map SStr [''06:30'', ''05:00'', ''08:00'', ''06:30''])"
    by (simp add: times_of_def daily_def_def)
  have h7: "\<forall>e\<in>set [''06:30'', ''05:00'', ''08:00'', ''06:30'']. is_hhmm e"
    by (simp add: is_hhmm_def is_digit_def two_digits_def digit_val_def)
  have h8: "\<forall>h m s. 0 \<le> h \<and> h \<le> 23 \<and> 0 \<le> m \<and> m \<le> 59 \<and> 0 \<le> s \<and> s \<le> 59 \<longrightarrow>
           cron_rejects test_lib
             \<lparr>cf_second = s, cf_minute = m, cf_hour = h,
              cf_day_of_week = get_scalar (dt_day_of_week daily_def),
              cf_timezone = (case None of None \<Rightarrow> Some (ZoneInfo ''America/Indiana/Indianapolis'')
                             | Some t \<Rightarrow> Some t)\<rparr> = None"
    by (simp add: test_lib_def daily_def_def get_scalar_def)
  have h9: "cron_rejects test_lib
     \<lparr>cf_second = 0, cf_minute = 0, cf_hour = 24, cf_day_of_week = SStr ''mon-sat'',
      cf_timezone = Some (ZoneInfo ''America/Indiana/Indianapolis'')\<rparr> = Some ''ValueError(hour)''"
    by (simp add: test_lib_def)
  have tr: "sort (remdups (map hms_of [''06:30'', ''05:00'', ''08:00'', ''06:30''])) =
      [(5, 0, 0), (6, 30, 0), (8, 0, 0)]"
    by (simp add: hms_of_def two_digits_def digit_val_def)
  have dw: "get_scalar (dt_day_of_week daily_def) = SStr ''mon-sat''"
    by (simp add: daily_def_def get_scalar_def)
  note t = daily_time_fires_exactly[OF h1 h2 h3 h4 h5 h6 h7 h8, unfolded Let_def tr dw,
      THEN conjunct1]
  show ?thesis
    using h1 h7 h9 t by (simp add: list_all_iff)
qed

end
